theory Spec2Isabelle
  imports Main "HOL-Library.Sublist" "HOL-Library.Word"
begin

unbundle bit_operations_syntax

section \<open>Regular expressions: the fragment of Go's \<open>regexp\<close> that wiki.go uses\<close>

text \<open>
  wiki.go compiles one pattern, \<^verbatim>\<open>^/(edit|save|view)/([a-zA-Z0-9]+)$\<close>, and calls
  \<^verbatim>\<open>FindStringSubmatch\<close> on it. The constructors below are the operators of Go's
  \<^verbatim>\<open>regexp/syntax\<close> that occur in the parse of that pattern. Strings are byte sequences
  (\<open>char list\<close>), as Go's are. A character class of ASCII ranges matches exactly one byte
  of the class: an ASCII byte never occurs inside a multi-byte UTF-8 sequence, so reading the
  input byte by byte agrees with Go's reading it rune by rune.
\<close>

datatype regexp =
    BeginText
  | EndText
  | Literal string
  | CharClass "(char \<times> char) list"
  | Alternate regexp regexp
  | Concat regexp regexp
  | Capture nat regexp
  | Plus regexp

type_synonym captures = "(nat \<times> string) list"

type_synonym matches = "(string \<times> captures) list"

definition in_ranges :: "(char \<times> char) list \<Rightarrow> char \<Rightarrow> bool" where
  "in_ranges rs c =
     list_ex (\<lambda>r. (of_char (fst r) :: nat) \<le> of_char c \<and> (of_char c :: nat) \<le> of_char (snd r)) rs"

text \<open>
  \<open>concat_matches f g b s\<close>: every match of \<open>f\<close> at the start of \<open>s\<close>, continued by
  every match of \<open>g\<close> on what is left, in priority order. The flag \<open>b\<close> says that the
  position is the beginning of the text; it stays true only while nothing was consumed.
  Captures set later come first in the list, so that they are the ones looked up.
\<close>

definition concat_matches ::
    "(bool \<Rightarrow> string \<Rightarrow> matches) \<Rightarrow> (bool \<Rightarrow> string \<Rightarrow> matches) \<Rightarrow> bool \<Rightarrow> string \<Rightarrow> matches" where
  "concat_matches f g b s =
     concat (map (\<lambda>m1. map (\<lambda>m2. (fst m1 @ fst m2, snd m2 @ snd m1))
                              (g (b \<and> fst m1 = []) (drop (length (fst m1)) s)))
                 (f b s))"

text \<open>
  \<open>plus_matches f n\<close>: one or more repetitions of \<open>f\<close>, greedy (a longer repetition has
  priority over stopping), at most \<open>n\<close> of them. An iteration that consumes nothing is not
  repeated, so \<open>length s\<close> iterations exhaust every match on \<open>s\<close>.
\<close>

primrec plus_matches :: "(bool \<Rightarrow> string \<Rightarrow> matches) \<Rightarrow> nat \<Rightarrow> bool \<Rightarrow> string \<Rightarrow> matches" where
  "plus_matches f 0 b s = []"
| "plus_matches f (Suc n) b s =
     concat (map (\<lambda>m1.
        (if fst m1 = [] then []
         else map (\<lambda>m2. (fst m1 @ fst m2, snd m2 @ snd m1))
                  (plus_matches f n False (drop (length (fst m1)) s))) @ [m1])
       (f b s))"

text \<open>
  \<open>rmatch r b s\<close>: the matches of \<open>r\<close> that start at the start of \<open>s\<close>, each with the text
  it consumed and the capture groups it set, the preferred match first (Go's leftmost-first
  semantics: the first alternative before the second, more repetitions before fewer).
\<close>

primrec rmatch :: "regexp \<Rightarrow> bool \<Rightarrow> string \<Rightarrow> matches" where
  "rmatch BeginText = (\<lambda>b s. if b then [([], [])] else [])"
| "rmatch EndText = (\<lambda>b s. if s = [] then [([], [])] else [])"
| "rmatch (Literal l) = (\<lambda>b s. if prefix l s then [(l, [])] else [])"
| "rmatch (CharClass rs) =
     (\<lambda>b s. case s of [] \<Rightarrow> [] | c # _ \<Rightarrow> if in_ranges rs c then [([c], [])] else [])"
| "rmatch (Alternate r1 r2) = (\<lambda>b s. rmatch r1 b s @ rmatch r2 b s)"
| "rmatch (Concat r1 r2) = concat_matches (rmatch r1) (rmatch r2)"
| "rmatch (Capture k r) = (\<lambda>b s. map (\<lambda>m. (fst m, (k, fst m) # snd m)) (rmatch r b s))"
| "rmatch (Plus r) = (\<lambda>b s. plus_matches (rmatch r) (length s) b s)"

text \<open>
  The search of \<^verbatim>\<open>FindStringSubmatch\<close>: the leftmost position at which the expression
  matches, and there the preferred match.
\<close>

fun find_leftmost :: "regexp \<Rightarrow> bool \<Rightarrow> string \<Rightarrow> (string \<times> captures) option" where
  "find_leftmost r b [] = (case rmatch r b [] of m # _ \<Rightarrow> Some m | [] \<Rightarrow> None)"
| "find_leftmost r b (c # s) =
     (case rmatch r b (c # s) of m # _ \<Rightarrow> Some m | [] \<Rightarrow> find_leftmost r False s)"

primrec NumSubexp :: "regexp \<Rightarrow> nat" where
  "NumSubexp BeginText = 0"
| "NumSubexp EndText = 0"
| "NumSubexp (Literal l) = 0"
| "NumSubexp (CharClass rs) = 0"
| "NumSubexp (Alternate r1 r2) = NumSubexp r1 + NumSubexp r2"
| "NumSubexp (Concat r1 r2) = NumSubexp r1 + NumSubexp r2"
| "NumSubexp (Capture k r) = Suc (NumSubexp r)"
| "NumSubexp (Plus r) = NumSubexp r"

text \<open>
  \<^verbatim>\<open>FindStringSubmatch\<close> returns \<^verbatim>\<open>nil\<close> (here \<open>None\<close>) when there is no match, and
  otherwise the slice whose element 0 is the matched text and whose element \<open>k\<close> is the
  text of capture group \<open>k\<close> (the empty string for a group that took no part).
\<close>

definition FindStringSubmatch :: "regexp \<Rightarrow> string \<Rightarrow> string list option" where
  "FindStringSubmatch re s =
     (case find_leftmost re True s of
        None \<Rightarrow> None
      | Some m \<Rightarrow>
          Some (fst m # map (\<lambda>k. case map_of (snd m) k of None \<Rightarrow> [] | Some t \<Rightarrow> t)
                            [1 ..< Suc (NumSubexp re)]))"

subsection \<open>The pattern of wiki.go\<close>

text \<open>\<^verbatim>\<open>var validPath = regexp.MustCompile("^/(edit|save|view)/([a-zA-Z0-9]+)$")\<close>\<close>

definition validPath :: regexp where
  "validPath =
     Concat BeginText
    (Concat (Literal ''/'')
    (Concat (Capture 1 (Alternate (Literal ''edit'') (Alternate (Literal ''save'') (Literal ''view''))))
    (Concat (Literal ''/'')
    (Concat (Capture 2 (Plus (CharClass [(CHR ''a'', CHR ''z''), (CHR ''A'', CHR ''Z''), (CHR ''0'', CHR ''9'')])))
            EndText))))"

text \<open>
  The pattern as the specification writes it, \<^verbatim>\<open>^/(view|edit|save)/([a-zA-Z0-9]+)$\<close>:
  the same expression with the three operations in another order.
\<close>

definition spec_path_pattern :: regexp where
  "spec_path_pattern =
     Concat BeginText
    (Concat (Literal ''/'')
    (Concat (Capture 1 (Alternate (Literal ''view'') (Alternate (Literal ''edit'') (Literal ''save''))))
    (Concat (Literal ''/'')
    (Concat (Capture 2 (Plus (CharClass [(CHR ''a'', CHR ''z''), (CHR ''A'', CHR ''Z''), (CHR ''0'', CHR ''9'')])))
            EndText))))"

text \<open>A title in the sense of the specification: a string that matches \<^verbatim>\<open>[a-zA-Z0-9]+\<close>.\<close>

definition alnum :: "(char \<times> char) list" where
  "alnum = [(CHR ''a'', CHR ''z''), (CHR ''A'', CHR ''Z''), (CHR ''0'', CHR ''9'')]"

definition is_title :: "string \<Rightarrow> bool" where
  "is_title t = (t \<noteq> [] \<and> list_all (in_ranges alnum) t)"

section \<open>Pages and the file store\<close>

text \<open>\<^verbatim>\<open>type Page struct { Title string; Body []byte }\<close>\<close>

record Page =
  Title :: string
  Body :: string

text \<open>
  The file system as \<^verbatim>\<open>ioutil.ReadFile\<close> and \<^verbatim>\<open>ioutil.WriteFile\<close> see it from the
  working directory of the server, on a POSIX system: a path is free, a regular file with its
  permission bits and its bytes, or a directory. A path is looked up as it is written; the
  directories on the way of a path with slashes are not modelled, and the paths that the
  handlers use have none. The server is the owner of the files and is not the superuser, so
  the owner's bits decide whether it may read (octal 0400) or write (0200). The state also
  holds the umask of the process and the room left on the device, counted in bytes. Errors
  are Go's \<^verbatim>\<open>*os.PathError\<close>: an operation, the path, and the error of the system
  call.
\<close>

type_synonym FileMode = "32 word"

datatype node = File FileMode string | Dir

datatype Errno = ENOENT | EISDIR | EACCES | ENAMETOOLONG | EINVAL | ENOSPC

datatype PathError = PathError string string Errno

fun Errno_Error :: "Errno \<Rightarrow> string" where
  "Errno_Error ENOENT = ''no such file or directory''"
| "Errno_Error EISDIR = ''is a directory''"
| "Errno_Error EACCES = ''permission denied''"
| "Errno_Error ENAMETOOLONG = ''file name too long''"
| "Errno_Error EINVAL = ''invalid argument''"
| "Errno_Error ENOSPC = ''no space left on device''"

fun PathError_Error :: "PathError \<Rightarrow> string" where
  "PathError_Error (PathError op path err) = op @ '' '' @ path @ '': '' @ Errno_Error err"

text \<open>
  What a handler can touch: the files, the response being written, and two logs that only
  grow, the calls made to the file system and the calls made on the
  \<^verbatim>\<open>http.ResponseWriter\<close>.
\<close>

datatype fs_call = ReadFileCall string | WriteFileCall string string FileMode

datatype http_call = Error string nat | Redirect string nat | ExecuteTemplate string Page

record world =
  files :: "string \<rightharpoonup> node"
  umask :: FileMode
  free :: nat
  syscalls :: "fs_call list"
  response :: "http_call list"

text \<open>
  Opening a path fails before the file is looked at when the path holds a NUL byte, when it
  is as long as \<^verbatim>\<open>PATH_MAX\<close>, or when one of its elements is longer than
  \<^verbatim>\<open>NAME_MAX\<close>.
\<close>

fun components :: "string \<Rightarrow> string list" where
  "components [] = [[]]"
| "components (c # s) =
     (if c = CHR ''/'' then [] # components s
      else (case components s of [] \<Rightarrow> [[c]] | x # xs \<Rightarrow> (c # x) # xs))"

definition NAME_MAX :: nat where
  "NAME_MAX = 255"

definition PATH_MAX :: nat where
  "PATH_MAX = 4096"

definition open_error :: "string \<Rightarrow> Errno option" where
  "open_error path =
     (if CHR 0x00 \<in> set path then Some EINVAL
      else if PATH_MAX \<le> length path \<or> list_ex (\<lambda>x. NAME_MAX < length x) (components path)
        then Some ENAMETOOLONG
      else None)"

definition owner_may_read :: "FileMode \<Rightarrow> bool" where
  "owner_may_read mode = bit mode 8"

definition owner_may_write :: "FileMode \<Rightarrow> bool" where
  "owner_may_write mode = bit mode 7"

text \<open>
  \<^verbatim>\<open>ioutil.ReadFile(filename)\<close>: the whole contents of the file, or an error. A directory
  can be opened, and it is the read that fails.
\<close>

definition ReadFile :: "string \<Rightarrow> world \<Rightarrow> (PathError + string) \<times> world" where
  "ReadFile filename w =
     (case open_error filename of
        Some e \<Rightarrow> Inl (PathError ''open'' filename e)
      | None \<Rightarrow>
         (case files w filename of
            None \<Rightarrow> Inl (PathError ''open'' filename ENOENT)
          | Some Dir \<Rightarrow> Inl (PathError ''read'' filename EISDIR)
          | Some (File mode data) \<Rightarrow>
              if owner_may_read mode then Inr data
              else Inl (PathError ''open'' filename EACCES)),
      w\<lparr>syscalls := syscalls w @ [ReadFileCall filename]\<rparr>)"

text \<open>
  \<^verbatim>\<open>ioutil.WriteFile(filename, data, perm)\<close>: ``If the file does not exist, WriteFile creates
  it with permissions perm (before umask); otherwise WriteFile truncates it before writing,
  without changing permissions.'' The file is opened with
  \<^verbatim>\<open>O_WRONLY|O_CREATE|O_TRUNC\<close>, which empties an existing file, and then written.
  \<open>write_data\<close> is that write into the emptied file: it stores as much of the data as the
  device can take, and fails when that is not all of it.
\<close>

definition write_data ::
    "string \<Rightarrow> FileMode \<Rightarrow> string \<Rightarrow> nat \<Rightarrow> world \<Rightarrow> PathError option \<times> world" where
  "write_data filename mode data avail w =
     (let n = min (length data) avail in
      (if n < length data then Some (PathError ''write'' filename ENOSPC) else None,
       w\<lparr>files := (files w)(filename \<mapsto> File mode (take n data)), free := avail - n\<rparr>))"

definition WriteFile :: "string \<Rightarrow> string \<Rightarrow> FileMode \<Rightarrow> world \<Rightarrow> PathError option \<times> world" where
  "WriteFile filename data perm w =
     (let w' = w\<lparr>syscalls := syscalls w @ [WriteFileCall filename data perm]\<rparr> in
      case open_error filename of
        Some e \<Rightarrow> (Some (PathError ''open'' filename e), w')
      | None \<Rightarrow>
         (case files w filename of
            None \<Rightarrow> write_data filename (perm AND NOT (umask w)) data (free w) w'
          | Some Dir \<Rightarrow> (Some (PathError ''open'' filename EISDIR), w')
          | Some (File mode old) \<Rightarrow>
              if owner_may_write mode
              then write_data filename mode data (free w + length old) w'
              else (Some (PathError ''open'' filename EACCES), w')))"

subsection \<open>wiki.go: \<^verbatim>\<open>save\<close> and \<^verbatim>\<open>loadPage\<close>\<close>

text \<open>Both functions name the file of a page \<^verbatim>\<open>filename := title + ".txt"\<close>.\<close>

definition filename :: "string \<Rightarrow> string" where
  "filename title = title @ ''.txt''"

text \<open>The permission that \<^verbatim>\<open>save\<close> passes, octal 0600.\<close>

definition perm_0600 :: FileMode where
  "perm_0600 = 0x180"

definition save :: "Page \<Rightarrow> world \<Rightarrow> PathError option \<times> world" where
  "save p w = WriteFile (filename (Title p)) (Body p) perm_0600 w"

definition loadPage :: "string \<Rightarrow> world \<Rightarrow> (PathError + Page) \<times> world" where
  "loadPage title w =
     (case ReadFile (filename title) w of
        (Inl err, w') \<Rightarrow> (Inl err, w')
      | (Inr body, w') \<Rightarrow> (Inr \<lparr>Title = title, Body = body\<rparr>, w'))"

section \<open>Requests, responses and the handlers\<close>

text \<open>
  Of \<^verbatim>\<open>*http.Request\<close>: the method, the path, the values of the query string, and the
  fields of the body when the body is a form. \<^verbatim>\<open>r.FormValue(key)\<close> parses the form on
  first use: the body is read only for the methods POST, PUT and PATCH
  (\<^verbatim>\<open>r.PostForm\<close>), its values come before those of the query string in
  \<^verbatim>\<open>r.Form\<close>, and the result is the first value of the key, or the empty string when
  there is none.
\<close>

record Request =
  Method :: string
  URL_Path :: string
  URL_Query :: "string \<rightharpoonup> string list"
  Body_Form :: "string \<rightharpoonup> string list"

definition PostForm :: "Request \<Rightarrow> string \<rightharpoonup> string list" where
  "PostForm r =
     (if Method r = ''POST'' \<or> Method r = ''PUT'' \<or> Method r = ''PATCH'' then Body_Form r
      else Map.empty)"

definition Form :: "Request \<Rightarrow> string \<rightharpoonup> string list" where
  "Form r key =
     (case PostForm r key of
        None \<Rightarrow> URL_Query r key
      | Some vs \<Rightarrow> (case URL_Query r key of None \<Rightarrow> Some vs | Some qs \<Rightarrow> Some (vs @ qs)))"

definition FormValue :: "Request \<Rightarrow> string \<Rightarrow> string" where
  "FormValue r key = (case Form r key of None \<Rightarrow> [] | Some [] \<Rightarrow> [] | Some (v # vs) \<Rightarrow> v)"

definition StatusFound :: nat where
  "StatusFound = 302"

definition StatusNotFound :: nat where
  "StatusNotFound = 404"

definition StatusInternalServerError :: nat where
  "StatusInternalServerError = 500"

text \<open>
  The functions of \<^verbatim>\<open>net/http\<close> that wiki.go calls on the response writer. Each call is
  recorded with its text or URL and its status code; what the library then writes to the
  client for such a call is not part of the record. \<^verbatim>\<open>http.NotFound\<close> is, as in the
  library, \<^verbatim>\<open>Error(w, "404 page not found", StatusNotFound)\<close>.
\<close>

definition http_Error :: "world \<Rightarrow> string \<Rightarrow> nat \<Rightarrow> world" where
  "http_Error w msg code = w\<lparr>response := response w @ [Error msg code]\<rparr>"

definition http_NotFound :: "world \<Rightarrow> Request \<Rightarrow> world" where
  "http_NotFound w r = http_Error w ''404 page not found'' StatusNotFound"

definition http_Redirect :: "world \<Rightarrow> Request \<Rightarrow> string \<Rightarrow> nat \<Rightarrow> world" where
  "http_Redirect w r url code = w\<lparr>response := response w @ [Redirect url code]\<rparr>"

text \<open>
  The parsed template set (the global \<^verbatim>\<open>templates\<close>) is a parameter: for a template
  name and a page, \<^verbatim>\<open>ExecuteTemplate\<close> returns \<^verbatim>\<open>nil\<close> or an error, given here by its
  text.
\<close>

type_synonym Template = "string \<Rightarrow> Page \<Rightarrow> string option"

definition renderTemplate :: "Template \<Rightarrow> world \<Rightarrow> string \<Rightarrow> Page \<Rightarrow> world" where
  "renderTemplate templates w tmpl p =
     (let w' = w\<lparr>response := response w @ [ExecuteTemplate (tmpl @ ''.html'') p]\<rparr> in
      case templates (tmpl @ ''.html'') p of
        None \<Rightarrow> w'
      | Some err \<Rightarrow> http_Error w' err StatusInternalServerError)"

type_synonym handler = "world \<Rightarrow> Request \<Rightarrow> string \<Rightarrow> world"

definition viewHandler :: "Template \<Rightarrow> handler" where
  "viewHandler templates w r title =
     (case loadPage title w of
        (Inl err, w') \<Rightarrow> http_Redirect w' r (''/edit/'' @ title) StatusFound
      | (Inr p, w') \<Rightarrow> renderTemplate templates w' ''view'' p)"

definition saveHandler :: handler where
  "saveHandler w r title =
     (let body = FormValue r ''body'';
          p = \<lparr>Title = title, Body = body\<rparr>
      in case save p w of
           (Some err, w') \<Rightarrow> http_Error w' (PathError_Error err) StatusInternalServerError
         | (None, w') \<Rightarrow> http_Redirect w' r (''/view/'' @ title) StatusFound)"

definition editHandler :: "Template \<Rightarrow> handler" where
  "editHandler templates w r title =
     (case loadPage title w of
        (Inl err, w') \<Rightarrow> renderTemplate templates w' ''edit'' \<lparr>Title = title, Body = []\<rparr>
      | (Inr p, w') \<Rightarrow> renderTemplate templates w' ''edit'' p)"

text \<open>
  \<^verbatim>\<open>makeHandler\<close>: \<^verbatim>\<open>m[2]\<close> is element 2 of the slice that \<^verbatim>\<open>FindStringSubmatch\<close>
  returned.
\<close>

definition makeHandler :: "handler \<Rightarrow> world \<Rightarrow> Request \<Rightarrow> world" where
  "makeHandler fn w r =
     (case FindStringSubmatch validPath (URL_Path r) of
        None \<Rightarrow> http_NotFound w r
      | Some m \<Rightarrow> fn w r (m ! 2))"

subsection \<open>\<^verbatim>\<open>main\<close>: the registrations\<close>

text \<open>
  \<^verbatim>\<open>main\<close> registers three patterns with \<^verbatim>\<open>http.HandleFunc\<close>, none of them with a
  method. The multiplexer first brings the path into canonical form (\<^verbatim>\<open>cleanPath\<close>: a
  leading slash, no empty element, no \<^verbatim>\<open>.\<close>, each \<^verbatim>\<open>..\<close> removed with the element
  before it, a trailing slash kept); unless the method is CONNECT, a request whose path is
  not in that form is answered by the multiplexer itself, with a redirect. Then a pattern
  that ends in a slash stands for every path it is a prefix of, and the longest registered
  pattern wins. \<open>ServeHTTP\<close> is the call of the function so selected; \<open>None\<close> says that
  no registered function is called and the multiplexer answers by itself.
\<close>

definition clean_elements :: "string list \<Rightarrow> string list" where
  "clean_elements es =
     foldl (\<lambda>st e. if e = [] \<or> e = ''.'' then st
                     else if e = ''..'' then butlast st
                     else st @ [e]) [] es"

definition path_Clean :: "string \<Rightarrow> string" where
  "path_Clean p =
     (case clean_elements (components p) of
        [] \<Rightarrow> ''/''
      | e # es \<Rightarrow> concat (map (\<lambda>x. CHR ''/'' # x) (e # es)))"

definition cleanPath :: "string \<Rightarrow> string" where
  "cleanPath p =
     (if p = [] then ''/''
      else let p' = (if hd p = CHR ''/'' then p else CHR ''/'' # p);
               np = path_Clean p'
           in if last p' = CHR ''/'' \<and> np \<noteq> ''/'' then np @ ''/'' else np)"

definition routes :: "Template \<Rightarrow> (string \<times> (world \<Rightarrow> Request \<Rightarrow> world)) list" where
  "routes templates =
     [(''/view/'', makeHandler (viewHandler templates)),
      (''/save/'', makeHandler saveHandler),
      (''/edit/'', makeHandler (editHandler templates))]"

definition mux_match :: "(string \<times> 'h) list \<Rightarrow> string \<Rightarrow> 'h option" where
  "mux_match es path =
     (case filter (\<lambda>e. prefix (fst e) path) es of
        [] \<Rightarrow> None
      | e # es' \<Rightarrow>
          Some (snd (foldl (\<lambda>a b. if length (fst a) < length (fst b) then b else a) e es')))"

definition ServeHTTP :: "Template \<Rightarrow> world \<Rightarrow> Request \<Rightarrow> world option" where
  "ServeHTTP templates w r =
     (if Method r \<noteq> ''CONNECT'' \<and> cleanPath (URL_Path r) \<noteq> URL_Path r then None
      else case mux_match (routes templates) (URL_Path r) of
             None \<Rightarrow> None
           | Some h \<Rightarrow> Some (h w r))"

text \<open>
  The methods that the specification lists for each operation, and the function that
  \<^verbatim>\<open>main\<close> registers for it.
\<close>

definition spec_methods :: "string \<Rightarrow> string list" where
  "spec_methods op =
     (if op = ''view'' then [''GET'', ''POST'']
      else if op = ''edit'' then [''GET'']
      else if op = ''save'' then [''POST'']
      else [])"

definition operation_handler :: "Template \<Rightarrow> string \<Rightarrow> handler" where
  "operation_handler templates op =
     (if op = ''view'' then viewHandler templates
      else if op = ''save'' then saveHandler
      else editHandler templates)"

section \<open>Sample inputs\<close>

text \<open>
  Concrete stores, a template set and requests, on which the statements below are run. The
  stores have the usual umask 022 and room for 4096 bytes, but for \<open>world_Full\<close>, whose
  device is full. \<open>world_empty\<close> is the empty directory; in the others the name
  \<^verbatim>\<open>Test.txt\<close> is a page with mode 0600, a page with mode 0644, a file that its owner may
  write and not read (0200), a file that its owner may read and not write (0400), or a
  subdirectory.
\<close>

definition umask_022 :: FileMode where
  "umask_022 = 0x12"

definition perm_0644 :: FileMode where
  "perm_0644 = 0x1A4"

definition perm_0200 :: FileMode where
  "perm_0200 = 0x80"

definition perm_0400 :: FileMode where
  "perm_0400 = 0x100"

definition world_with :: "(string \<rightharpoonup> node) \<Rightarrow> nat \<Rightarrow> world" where
  "world_with fs n = \<lparr>files = fs, umask = umask_022, free = n, syscalls = [], response = []\<rparr>"

definition world_empty :: world where
  "world_empty = world_with Map.empty 4096"

definition world_Test :: world where
  "world_Test = world_with [''Test.txt'' \<mapsto> File perm_0600 ''hello''] 4096"

definition world_0644 :: world where
  "world_0644 = world_with [''Test.txt'' \<mapsto> File perm_0644 ''hello''] 4096"

definition world_WriteOnly :: world where
  "world_WriteOnly = world_with [''Test.txt'' \<mapsto> File perm_0200 ''hello''] 4096"

definition world_ReadOnly :: world where
  "world_ReadOnly = world_with [''Test.txt'' \<mapsto> File perm_0400 ''hello''] 4096"

definition world_Dir :: world where
  "world_Dir = world_with [''Test.txt'' \<mapsto> Dir] 4096"

definition world_Full :: world where
  "world_Full = world_with [''Test.txt'' \<mapsto> File perm_0600 ''hello''] 0"


definition templates_ok :: Template where
  "templates_ok name p = None"

definition request :: "string \<Rightarrow> string \<Rightarrow> Request" where
  "request method path =
     \<lparr>Method = method, URL_Path = path, URL_Query = Map.empty, Body_Form = Map.empty\<rparr>"

definition request_with_body :: "string \<Rightarrow> string \<Rightarrow> string \<Rightarrow> Request" where
  "request_with_body method path body =
     \<lparr>Method = method, URL_Path = path, URL_Query = Map.empty, Body_Form = [''body'' \<mapsto> [body]]\<rparr>"

section \<open>Properties of the matcher\<close>

subsection \<open>Auxiliary expressions\<close>

text \<open>
  The two patterns have one shape, \<^verbatim>\<open>^/(a|b|c)/([a-zA-Z0-9]+)$\<close>; \<open>op_branch\<close> is what
  follows the first slash once an alternative is chosen.
\<close>

definition op_branch :: "string \<Rightarrow> regexp" where
  "op_branch op =
     Concat (Capture 1 (Literal op))
    (Concat (Literal ''/'') (Concat (Capture 2 (Plus (CharClass alnum))) EndText))"

definition path_regexp :: "string \<Rightarrow> string \<Rightarrow> string \<Rightarrow> regexp" where
  "path_regexp a b c =
     Concat BeginText
    (Concat (Literal ''/'')
    (Concat (Capture 1 (Alternate (Literal a) (Alternate (Literal b) (Literal c))))
    (Concat (Literal ''/'') (Concat (Capture 2 (Plus (CharClass alnum))) EndText))))"

lemma validPath_path_regexp: "validPath = path_regexp ''edit'' ''save'' ''view''"
  by (simp add: validPath_def path_regexp_def alnum_def)

lemma spec_path_pattern_path_regexp: "spec_path_pattern = path_regexp ''view'' ''edit'' ''save''"
  by (simp add: spec_path_pattern_def path_regexp_def alnum_def)

subsection \<open>A repeated character class\<close>

lemma rev_upt_Suc_shift:
  "rev [Suc 0 ..< Suc (Suc m)] = map Suc (rev [Suc 0 ..< Suc m]) @ [Suc 0]"
proof -
  have "[Suc 0 ..< Suc (Suc m)] = Suc 0 # map Suc [Suc 0 ..< Suc m]"
    by (metis map_Suc_upt upt_conv_Cons zero_less_Suc Suc_less_eq)
  then show ?thesis by (simp add: rev_map)
qed

text \<open>The matches of \<^verbatim>\<open>[..]+\<close> are the non-empty prefixes of the longest run, longest first.\<close>

lemma plus_matches_CharClass:
  "length s \<le> n \<Longrightarrow>
   plus_matches (rmatch (CharClass rs)) n b s =
     map (\<lambda>k. (take k s, [])) (rev [Suc 0 ..< Suc (length (takeWhile (in_ranges rs) s))])"
proof (induction n arbitrary: b s)
  case 0
  then show ?case by simp
next
  case (Suc n)
  show ?case
  proof (cases s)
    case Nil
    then show ?thesis by simp
  next
    case (Cons c s')
    show ?thesis
    proof (cases "in_ranges rs c")
      case False
      with Cons show ?thesis by simp
    next
      case True
      from Suc.prems Cons have len: "length s' \<le> n" by simp
      have "plus_matches (rmatch (CharClass rs)) (Suc n) b s =
              map (\<lambda>m2. (c # fst m2, snd m2)) (plus_matches (rmatch (CharClass rs)) n False s')
              @ [([c], [])]"
        using Cons True by simp
      also have "\<dots> =
              map (\<lambda>k. (take (Suc k) s, []))
                  (rev [Suc 0 ..< Suc (length (takeWhile (in_ranges rs) s'))])
              @ [(take (Suc 0) s, [])]"
        using Suc.IH [OF len, of False] Cons by (simp add: comp_def)
      also have "\<dots> =
              map (\<lambda>k. (take k s, [])) (rev [Suc 0 ..< Suc (length (takeWhile (in_ranges rs) s))])"
        using Cons True by (simp add: rev_upt_Suc_shift comp_def del: upt_Suc)
      finally show ?thesis .
    qed
  qed
qed

lemma rmatch_Plus_CharClass:
  "rmatch (Plus (CharClass rs)) b s =
     map (\<lambda>k. (take k s, [])) (rev [Suc 0 ..< Suc (length (takeWhile (in_ranges rs) s))])"
  using plus_matches_CharClass [of s "length s" rs b] by simp

lemma map_if_list: "map f (if c then xs else ys) = (if c then map f xs else map f ys)"
  by simp

lemma concat_map_if:
  "concat (map (\<lambda>k. if Q k then [g k] else []) xs) = map g (filter Q xs)"
  by (induction xs) simp_all

lemma filter_reach_end:
  assumes "L \<le> n"
  shows "filter (\<lambda>k. n \<le> k) (rev [Suc 0 ..< Suc L]) = (if L = n \<and> 0 < n then [n] else [])"
proof (cases "L = n \<and> 0 < n")
  case True
  then have "[Suc 0 ..< Suc L] = [Suc 0 ..< n] @ [n]" by simp
  moreover have "filter (\<lambda>k. n \<le> k) [Suc 0 ..< n] = []" by (simp add: filter_empty_conv)
  ultimately show ?thesis using True by (simp del: upt_Suc)
next
  case False
  with assms have "\<forall>k \<in> set [Suc 0 ..< Suc L]. \<not> n \<le> k" by auto
  then have "filter (\<lambda>k. n \<le> k) (rev [Suc 0 ..< Suc L]) = []"
    by (simp only: filter_empty_conv set_rev)
  with False show ?thesis by simp
qed

lemma takeWhile_full: "(length (takeWhile P s) = length s) = list_all P s"
  by (induction s) auto

text \<open>Followed by \<^verbatim>\<open>$\<close>, the class must run to the end of the text.\<close>

lemma title_tail_matches:
  "rmatch (Concat (Capture k (Plus (CharClass rs))) EndText) b s =
     (if s \<noteq> [] \<and> list_all (in_ranges rs) s then [(s, [(k, s)])] else [])"
proof -
  let ?L = "length (takeWhile (in_ranges rs) s)"
  have L: "?L \<le> length s" by (rule length_takeWhile_le)
  have "rmatch (Concat (Capture k (Plus (CharClass rs))) EndText) b s =
        concat (map (\<lambda>j. if length s \<le> j then [(take j s, [(k, take j s)])] else [])
                    (rev [Suc 0 ..< Suc ?L]))"
    by (simp add: concat_matches_def rmatch_Plus_CharClass comp_def map_if_list
          del: upt_Suc rmatch.simps(8) cong: if_cong)
  also have "\<dots> = map (\<lambda>j. (take j s, [(k, take j s)]))
                       (filter (\<lambda>j. length s \<le> j) (rev [Suc 0 ..< Suc ?L]))"
    by (rule concat_map_if)
  also have "\<dots> = (if s \<noteq> [] \<and> list_all (in_ranges rs) s then [(s, [(k, s)])] else [])"
    by (simp add: filter_reach_end [OF L] takeWhile_full del: upt_Suc)
  finally show ?thesis .
qed

subsection \<open>The path patterns\<close>

lemma rmatch_Concat_BeginText:
  "rmatch (Concat BeginText r) b s = (if b then rmatch r True s else [])"
  by (simp add: concat_matches_def)

lemma rmatch_Concat_Literal:
  "rmatch (Concat (Literal l) r) b s =
     (if prefix l s then map (\<lambda>m. (l @ fst m, snd m)) (rmatch r (b \<and> l = []) (drop (length l) s))
      else [])"
  by (simp add: concat_matches_def)

lemma rmatch_Concat_Capture_Alternate:
  "rmatch (Concat (Capture k (Alternate r1 r2)) r) b s =
     rmatch (Concat (Capture k r1) r) b s @ rmatch (Concat (Capture k r2) r) b s"
  by (simp add: concat_matches_def)

lemma rmatch_Concat_Capture_Literal:
  "rmatch (Concat (Capture k (Literal l)) r) b s =
     (if prefix l s
      then map (\<lambda>m. (l @ fst m, snd m @ [(k, l)])) (rmatch r (b \<and> l = []) (drop (length l) s))
      else [])"
  by (simp add: concat_matches_def)

lemma rmatch_op_branch:
  "rmatch (op_branch op) b s =
     (if prefix (op @ ''/'') s \<and> is_title (drop (Suc (length op)) s)
      then [(s, [(2, drop (Suc (length op)) s), (1, op)])] else [])"
proof (cases "prefix (op @ ''/'') s")
  case True
  then obtain t where s: "s = op @ ''/'' @ t" by (auto simp: prefix_def)
  show ?thesis unfolding s op_branch_def is_title_def
    by (simp add: rmatch_Concat_Literal rmatch_Concat_Capture_Literal title_tail_matches
          del: rmatch.simps)
next
  case False
  have "\<not> (prefix op s \<and> prefix ''/'' (drop (length op) s))"
  proof
    assume "prefix op s \<and> prefix ''/'' (drop (length op) s)"
    then obtain u v where "s = op @ u" "drop (length op) s = ''/'' @ v"
      by (auto simp: prefix_def)
    then have "s = (op @ ''/'') @ v" by simp
    then have "prefix (op @ ''/'') s" unfolding prefix_def by blast
    with False show False by simp
  qed
  with False show ?thesis unfolding op_branch_def
    by (auto simp add: rmatch_Concat_Literal rmatch_Concat_Capture_Literal title_tail_matches
          simp del: rmatch.simps)
qed

lemma rmatch_op_branch_iff:
  "x \<in> set (rmatch (op_branch op) b s) \<longleftrightarrow>
     (\<exists>t. is_title t \<and> s = op @ ''/'' @ t \<and> x = (s, [(2, t), (1, op)]))"
proof
  assume "x \<in> set (rmatch (op_branch op) b s)"
  then have p: "prefix (op @ ''/'') s" and a: "is_title (drop (Suc (length op)) s)"
    and x: "x = (s, [(2, drop (Suc (length op)) s), (1, op)])"
    unfolding rmatch_op_branch by (simp_all split: if_splits)
  from p obtain t where "s = (op @ ''/'') @ t" unfolding prefix_def by blast
  then have s: "s = op @ ''/'' @ t" by simp
  then have "drop (Suc (length op)) s = t" by simp
  with a x s show "\<exists>t. is_title t \<and> s = op @ ''/'' @ t \<and> x = (s, [(2, t), (1, op)])"
    by metis
next
  assume "\<exists>t. is_title t \<and> s = op @ ''/'' @ t \<and> x = (s, [(2, t), (1, op)])"
  then obtain t where t: "is_title t" and s: "s = op @ ''/'' @ t"
    and x: "x = (s, [(2, t), (1, op)])" by blast
  have "prefix (op @ ''/'') s" unfolding s prefix_def by simp
  moreover have "drop (Suc (length op)) s = t" unfolding s by simp
  ultimately show "x \<in> set (rmatch (op_branch op) b s)"
    unfolding rmatch_op_branch using t x by simp
qed

lemma rmatch_path_regexp:
  "rmatch (path_regexp a b c) bt s =
     (if bt then
        if prefix ''/'' s
        then map (\<lambda>m. (''/'' @ fst m, snd m))
               (rmatch (op_branch a) False (drop (Suc 0) s) @
                rmatch (op_branch b) False (drop (Suc 0) s) @
                rmatch (op_branch c) False (drop (Suc 0) s))
        else []
      else [])"
  unfolding path_regexp_def op_branch_def
  by (simp add: rmatch_Concat_BeginText
        rmatch_Concat_Literal [of "''/''" "Concat (Capture x y) z" for x y z]
        rmatch_Concat_Capture_Alternate
        del: rmatch.simps One_nat_def split del: if_split cong: if_cong)


lemma rmatch_path_regexp_iff:
  "x \<in> set (rmatch (path_regexp a b c) bt s) \<longleftrightarrow>
     bt \<and> (\<exists>op t. (op = a \<or> op = b \<or> op = c) \<and> is_title t \<and> s = ''/'' @ op @ ''/'' @ t \<and>
              x = (s, [(2, t), (1, op)]))"
proof (cases "bt \<and> prefix ''/'' s")
  case False
  then have "rmatch (path_regexp a b c) bt s = []"
    by (simp add: rmatch_path_regexp del: rmatch.simps)
  moreover have "prefix ''/'' s" if "s = ''/'' @ op @ ''/'' @ t" for op t
    using that by simp
  ultimately show ?thesis using False by auto
next
  case True
  then obtain s' where s: "s = ''/'' @ s'" unfolding prefix_def by blast
  from True have bt: bt by simp
  have eq: "rmatch (path_regexp a b c) bt s =
          map (\<lambda>m. (''/'' @ fst m, snd m))
            (rmatch (op_branch a) False s' @ rmatch (op_branch b) False s' @
             rmatch (op_branch c) False s')"
    unfolding rmatch_path_regexp s using bt by (simp del: rmatch.simps)
  show ?thesis
  proof
    assume "x \<in> set (rmatch (path_regexp a b c) bt s)"
    then obtain y where y: "x = (''/'' @ fst y, snd y)"
      and "y \<in> set (rmatch (op_branch a) False s') \<or>
           y \<in> set (rmatch (op_branch b) False s') \<or>
           y \<in> set (rmatch (op_branch c) False s')"
      unfolding eq by auto
    then obtain op t where "op = a \<or> op = b \<or> op = c" "is_title t" "s' = op @ ''/'' @ t"
      "y = (s', [(2, t), (1, op)])"
      unfolding rmatch_op_branch_iff by blast
    with y s bt show "bt \<and> (\<exists>op t. (op = a \<or> op = b \<or> op = c) \<and> is_title t \<and>
        s = ''/'' @ op @ ''/'' @ t \<and> x = (s, [(2, t), (1, op)]))"
      by auto
  next
    assume "bt \<and> (\<exists>op t. (op = a \<or> op = b \<or> op = c) \<and> is_title t \<and>
        s = ''/'' @ op @ ''/'' @ t \<and> x = (s, [(2, t), (1, op)]))"
    then obtain op t where op: "op = a \<or> op = b \<or> op = c" and t: "is_title t"
      and s2: "s = ''/'' @ op @ ''/'' @ t" and x: "x = (s, [(2, t), (1, op)])" by blast
    from s s2 have s': "s' = op @ ''/'' @ t" by simp
    have "(s', [(2, t), (1, op)]) \<in> set (rmatch (op_branch op) False s')"
      unfolding rmatch_op_branch_iff using t s' by blast
    with op have "(s', [(2, t), (1, op)]) \<in> set (rmatch (op_branch a) False s' @
        rmatch (op_branch b) False s' @ rmatch (op_branch c) False s')"
      by auto
    then have "(''/'' @ s', [(2, t), (1, op)]) \<in> set (rmatch (path_regexp a b c) bt s)"
      unfolding eq by force
    with x s show "x \<in> set (rmatch (path_regexp a b c) bt s)" by simp
  qed
qed

lemma find_leftmost_path_regexp_False: "find_leftmost (path_regexp a b c) False s = None"
  by (induction s) (simp_all add: rmatch_path_regexp del: rmatch.simps)

lemma find_leftmost_path_regexp:
  "find_leftmost (path_regexp a b c) True s =
     (case rmatch (path_regexp a b c) True s of [] \<Rightarrow> None | m # _ \<Rightarrow> Some m)"
  by (cases s) (simp_all add: find_leftmost_path_regexp_False split: list.splits del: rmatch.simps)

lemma NumSubexp_path_regexp: "NumSubexp (path_regexp a b c) = 2"
  by (simp add: path_regexp_def)

lemma FindStringSubmatch_path_regexp_None:
  "FindStringSubmatch (path_regexp a b c) s = None \<longleftrightarrow>
     \<not> (\<exists>op t. (op = a \<or> op = b \<or> op = c) \<and> is_title t \<and> s = ''/'' @ op @ ''/'' @ t)"
proof -
  have "FindStringSubmatch (path_regexp a b c) s = None \<longleftrightarrow> rmatch (path_regexp a b c) True s = []"
    unfolding FindStringSubmatch_def find_leftmost_path_regexp by (simp split: list.splits)
  also have "\<dots> \<longleftrightarrow> (\<forall>x. x \<notin> set (rmatch (path_regexp a b c) True s))"
    by (cases "rmatch (path_regexp a b c) True s") auto
  also have "\<dots> \<longleftrightarrow> \<not> (\<exists>op t. (op = a \<or> op = b \<or> op = c) \<and> is_title t \<and> s = ''/'' @ op @ ''/'' @ t)"
    unfolding rmatch_path_regexp_iff by blast
  finally show ?thesis .
qed

lemma FindStringSubmatch_path_regexp_Some:
  assumes "FindStringSubmatch (path_regexp a b c) s = Some m"
  shows "\<exists>op t. (op = a \<or> op = b \<or> op = c) \<and> is_title t \<and> s = ''/'' @ op @ ''/'' @ t \<and>
           m = [s, op, t]"
proof -
  from assms obtain x xs where x: "rmatch (path_regexp a b c) True s = x # xs"
    and m: "m = fst x # map (\<lambda>k. case map_of (snd x) k of None \<Rightarrow> [] | Some t \<Rightarrow> t) [1 ..< Suc 2]"
    unfolding FindStringSubmatch_def find_leftmost_path_regexp NumSubexp_path_regexp
    by (auto split: list.splits)
  from x have "x \<in> set (rmatch (path_regexp a b c) True s)" by simp
  then obtain op t where
    *: "op = a \<or> op = b \<or> op = c" "is_title t" "s = ''/'' @ op @ ''/'' @ t"
       "x = (s, [(2, t), (1, op)])"
    unfolding rmatch_path_regexp_iff by blast
  from m * have "m = [s, op, t]" by (simp add: upt_rec)
  with * show ?thesis by blast
qed

subsection \<open>Titles\<close>

text \<open>\<open>is_title\<close> is the part \<^verbatim>\<open>([a-zA-Z0-9]+)$\<close> of the pattern, matched against a whole string.\<close>

lemma is_title_matches:
  "is_title t \<longleftrightarrow> rmatch (Concat (Capture 2 (Plus (CharClass alnum))) EndText) b t \<noteq> []"
  by (simp add: title_tail_matches is_title_def del: rmatch.simps)

lemma in_ranges_alnum_not_special:
  assumes "in_ranges alnum c"
  shows "c \<noteq> CHR ''/''" and "c \<noteq> CHR ''.''" and "c \<noteq> CHR 0x00" and "c \<noteq> CHR 0x5C"
  using assms by (auto simp: in_ranges_def alnum_def)

lemma is_title_no_slash: "is_title t \<Longrightarrow> CHR ''/'' \<notin> set t"
  by (auto simp: is_title_def list_all_iff dest: in_ranges_alnum_not_special)

subsection \<open>What \<open>validPath\<close> accepts, and what it returns\<close>

lemma split_path_unique:
  assumes "CHR ''/'' \<notin> set op" "CHR ''/'' \<notin> set op'"
    and "op @ ''/'' @ t = op' @ ''/'' @ t'"
  shows "op = op' \<and> t = t'"
proof -
  have "takeWhile (\<lambda>c. c \<noteq> CHR ''/'') (op @ ''/'' @ t) = op"
    using assms(1) by (subst takeWhile_append2) auto
  moreover have "takeWhile (\<lambda>c. c \<noteq> CHR ''/'') (op' @ ''/'' @ t') = op'"
    using assms(2) by (subst takeWhile_append2) auto
  ultimately have "op = op'" using assms(3) by simp
  with assms(3) show ?thesis by simp
qed

lemma FindStringSubmatch_validPath:
  assumes "op = ''edit'' \<or> op = ''save'' \<or> op = ''view''" and "is_title t"
  shows "FindStringSubmatch validPath (''/'' @ op @ ''/'' @ t) = Some [''/'' @ op @ ''/'' @ t, op, t]"
proof -
  let ?s = "''/'' @ op @ ''/'' @ t"
  have "FindStringSubmatch validPath ?s \<noteq> None"
    unfolding validPath_path_regexp FindStringSubmatch_path_regexp_None using assms by blast
  then obtain m where m: "FindStringSubmatch validPath ?s = Some m" by blast
  then obtain op' t' where
    *: "op' = ''edit'' \<or> op' = ''save'' \<or> op' = ''view''" "?s = ''/'' @ op' @ ''/'' @ t'"
       "m = [?s, op', t']"
    unfolding validPath_path_regexp by (blast dest: FindStringSubmatch_path_regexp_Some)
  have "CHR ''/'' \<notin> set op" "CHR ''/'' \<notin> set op'"
    using assms(1) *(1) by auto
  with *(2) have "op = op' \<and> t = t'" by (intro split_path_unique) simp_all
  with m * show ?thesis by simp
qed

lemma FindStringSubmatch_validPath_Some:
  assumes "FindStringSubmatch validPath s = Some m"
  shows "\<exists>op t. (op = ''edit'' \<or> op = ''save'' \<or> op = ''view'') \<and> is_title t \<and>
           s = ''/'' @ op @ ''/'' @ t \<and> m = [s, op, t]"
  using assms unfolding validPath_path_regexp by (rule FindStringSubmatch_path_regexp_Some)

lemma validPath_spec_path_pattern:
  "FindStringSubmatch validPath s = None \<longleftrightarrow> FindStringSubmatch spec_path_pattern s = None"
  unfolding validPath_path_regexp spec_path_pattern_path_regexp FindStringSubmatch_path_regexp_None
  by blast

section \<open>Properties of the file store\<close>

lemma perm_0600_OR: "perm_0600 = push_bit 8 1 OR push_bit 7 1"
  unfolding perm_0600_def by simp

text \<open>Octal 0600 is the owner's read bit (0400) and the owner's write bit (0200).\<close>

lemma perm_0600_bits: "bit perm_0600 n \<longleftrightarrow> n = 7 \<or> n = 8"
proof -
  have "bit perm_0600 n \<longleftrightarrow>
          bit (push_bit 8 (1 :: 32 word)) n \<or> bit (push_bit 7 (1 :: 32 word)) n"
    by (simp only: perm_0600_OR bit_or_iff)
  also have "\<dots> \<longleftrightarrow> n = 8 \<or> n = 7"
    by (simp only: bit_push_bit_iff bit_1_iff possible_bit_word) auto
  finally show ?thesis by blast
qed



lemma filename_inj: "filename a = filename b \<longleftrightarrow> a = b"
  by (simp add: filename_def)

lemma filename_no_slash: "is_title t \<Longrightarrow> CHR ''/'' \<notin> set (filename t)"
  by (auto simp: filename_def dest: is_title_no_slash)

lemma components_no_slash: "CHR ''/'' \<notin> set s \<Longrightarrow> components s = [s]"
  by (induction s) auto

lemma components_append_slash:
  "CHR ''/'' \<notin> set a \<Longrightarrow> components (a @ CHR ''/'' # b) = a # components b"
  by (induction a) auto

lemma loadPage_files: "files (snd (loadPage t w)) = files w"
  by (simp add: loadPage_def ReadFile_def split: option.splits node.splits)

lemma loadPage_syscalls: "syscalls (snd (loadPage t w)) = syscalls w @ [ReadFileCall (filename t)]"
  by (simp add: loadPage_def ReadFile_def split: option.splits node.splits)

lemma loadPage_response: "response (snd (loadPage t w)) = response w"
  by (simp add: loadPage_def ReadFile_def split: option.splits node.splits)

lemma loadPage_Inr_iff:
  "fst (loadPage t w) = Inr p \<longleftrightarrow>
     open_error (filename t) = None \<and>
     (\<exists>mode. files w (filename t) = Some (File mode (Body p)) \<and> owner_may_read mode) \<and>
     Title p = t"
  by (auto simp: loadPage_def ReadFile_def split: option.splits node.splits)


lemma loadPage_no_file:
  assumes "files w (filename t) = None \<or> files w (filename t) = Some Dir"
  shows "\<exists>err. fst (loadPage t w) = Inl err"
  using assms by (auto simp: loadPage_def ReadFile_def split: option.splits node.splits)

text \<open>What \<open>loadPage\<close> returns depends on the store through the one file only.\<close>

lemma loadPage_cong:
  "files w1 (filename t) = files w2 (filename t) \<Longrightarrow> fst (loadPage t w1) = fst (loadPage t w2)"
  by (simp add: loadPage_def ReadFile_def split: option.splits node.splits)

lemma save_syscalls:
  "syscalls (snd (save p w)) = syscalls w @ [WriteFileCall (filename (Title p)) (Body p) perm_0600]"
  by (simp add: save_def WriteFile_def write_data_def Let_def split: option.splits node.splits)

lemma save_response: "response (snd (save p w)) = response w"
  by (simp add: save_def WriteFile_def write_data_def Let_def split: option.splits node.splits)

lemma save_other_files:
  "n \<noteq> filename (Title p) \<Longrightarrow> files (snd (save p w)) n = files w n"
  by (simp add: save_def WriteFile_def write_data_def Let_def split: option.splits node.splits)


section \<open>Properties of the dispatch wrapper\<close>

lemma is_title_chars:
  assumes "is_title t"
  shows "CHR ''/'' \<notin> set t" and "CHR ''.'' \<notin> set t" and "CHR 0x00 \<notin> set t" and "CHR 0x5C \<notin> set t"
  using assms by (auto simp: is_title_def list_all_iff dest: in_ranges_alnum_not_special)

lemma validPath_title_segment:
  assumes "op = ''edit'' \<or> op = ''save'' \<or> op = ''view''"
  shows "FindStringSubmatch validPath (''/'' @ op @ ''/'' @ t) = None \<longleftrightarrow> \<not> is_title t"
proof
  assume "FindStringSubmatch validPath (''/'' @ op @ ''/'' @ t) = None"
  then show "\<not> is_title t"
    using FindStringSubmatch_validPath [OF assms, of t] by auto
next
  assume nt: "\<not> is_title t"
  show "FindStringSubmatch validPath (''/'' @ op @ ''/'' @ t) = None"
  proof (rule ccontr)
    assume "FindStringSubmatch validPath (''/'' @ op @ ''/'' @ t) \<noteq> None"
    then obtain m where "FindStringSubmatch validPath (''/'' @ op @ ''/'' @ t) = Some m" by blast
    then obtain op' t' where
      *: "op' = ''edit'' \<or> op' = ''save'' \<or> op' = ''view''" "is_title t'"
         "''/'' @ op @ ''/'' @ t = ''/'' @ op' @ ''/'' @ t'"
      by (blast dest: FindStringSubmatch_validPath_Some)
    have "CHR ''/'' \<notin> set op" "CHR ''/'' \<notin> set op'" using assms *(1) by auto
    with *(3) have "op = op' \<and> t = t'" by (intro split_path_unique) simp_all
    with *(2) nt show False by simp
  qed
qed

lemma makeHandler_None:
  "FindStringSubmatch validPath (URL_Path r) = None \<Longrightarrow>
   makeHandler fn w r = w\<lparr>response := response w @ [Error ''404 page not found'' 404]\<rparr>"
  by (simp add: makeHandler_def http_NotFound_def http_Error_def StatusNotFound_def)

lemma makeHandler_Some:
  "FindStringSubmatch validPath (URL_Path r) = Some m \<Longrightarrow>
   \<exists>op t. (op = ''edit'' \<or> op = ''save'' \<or> op = ''view'') \<and> is_title t \<and>
     URL_Path r = ''/'' @ op @ ''/'' @ t \<and> m = [URL_Path r, op, t] \<and> makeHandler fn w r = fn w r t"
  by (auto simp: makeHandler_def dest!: FindStringSubmatch_validPath_Some)

lemma no_match_my_page: "FindStringSubmatch spec_path_pattern ''/save/my.page'' = None"
  by (simp add: FindStringSubmatch_def spec_path_pattern_def concat_matches_def in_ranges_def)

lemma match_view_Test:
  "FindStringSubmatch validPath ''/view/Test'' = Some [''/view/Test'', ''view'', ''Test'']"
  by (simp add: FindStringSubmatch_def validPath_def concat_matches_def in_ranges_def)

section \<open>Properties of the handlers\<close>

lemma renderTemplate_response:
  "response (renderTemplate T w tmpl p) =
     response w @ ExecuteTemplate (tmpl @ ''.html'') p #
       (case T (tmpl @ ''.html'') p of None \<Rightarrow> [] | Some e \<Rightarrow> [Error e StatusInternalServerError])"
  by (simp add: renderTemplate_def http_Error_def Let_def split: option.splits)

lemma renderTemplate_files: "files (renderTemplate T w tmpl p) = files w"
  by (simp add: renderTemplate_def http_Error_def Let_def split: option.splits)

lemma renderTemplate_syscalls: "syscalls (renderTemplate T w tmpl p) = syscalls w"
  by (simp add: renderTemplate_def http_Error_def Let_def split: option.splits)

lemma viewHandler_Inl:
  assumes "fst (loadPage title w) = Inl err"
  shows "viewHandler T w r title = http_Redirect (snd (loadPage title w)) r (''/edit/'' @ title) StatusFound"
  using assms by (cases "loadPage title w") (simp add: viewHandler_def)

lemma viewHandler_Inr:
  assumes "fst (loadPage title w) = Inr p"
  shows "viewHandler T w r title = renderTemplate T (snd (loadPage title w)) ''view'' p"
  using assms by (cases "loadPage title w") (simp add: viewHandler_def)

lemma editHandler_Inl:
  assumes "fst (loadPage title w) = Inl err"
  shows "editHandler T w r title =
           renderTemplate T (snd (loadPage title w)) ''edit'' \<lparr>Title = title, Body = []\<rparr>"
  using assms by (cases "loadPage title w") (simp add: editHandler_def)

lemma editHandler_Inr:
  assumes "fst (loadPage title w) = Inr p"
  shows "editHandler T w r title = renderTemplate T (snd (loadPage title w)) ''edit'' p"
  using assms by (cases "loadPage title w") (simp add: editHandler_def)

lemma viewHandler_store:
  "files (viewHandler T w r title) = files w \<and>
   syscalls (viewHandler T w r title) = syscalls w @ [ReadFileCall (filename title)]"
proof (cases "fst (loadPage title w)")
  case (Inl err)
  then show ?thesis
    by (simp add: viewHandler_Inl http_Redirect_def loadPage_files loadPage_syscalls)
next
  case (Inr p)
  then show ?thesis
    by (simp add: viewHandler_Inr renderTemplate_files renderTemplate_syscalls loadPage_files
          loadPage_syscalls)
qed

lemma editHandler_store:
  "files (editHandler T w r title) = files w \<and>
   syscalls (editHandler T w r title) = syscalls w @ [ReadFileCall (filename title)]"
proof (cases "fst (loadPage title w)")
  case (Inl err)
  then show ?thesis
    by (simp add: editHandler_Inl renderTemplate_files renderTemplate_syscalls loadPage_files
          loadPage_syscalls)
next
  case (Inr p)
  then show ?thesis
    by (simp add: editHandler_Inr renderTemplate_files renderTemplate_syscalls loadPage_files
          loadPage_syscalls)
qed

lemma saveHandler_None:
  assumes "fst (save \<lparr>Title = title, Body = FormValue r ''body''\<rparr> w) = None"
  shows "saveHandler w r title =
     http_Redirect (snd (save \<lparr>Title = title, Body = FormValue r ''body''\<rparr> w)) r
       (''/view/'' @ title) StatusFound"
  using assms
  by (cases "save \<lparr>Title = title, Body = FormValue r ''body''\<rparr> w") (simp add: saveHandler_def)

lemma saveHandler_Some:
  assumes "fst (save \<lparr>Title = title, Body = FormValue r ''body''\<rparr> w) = Some err"
  shows "saveHandler w r title =
     http_Error (snd (save \<lparr>Title = title, Body = FormValue r ''body''\<rparr> w))
       (PathError_Error err) StatusInternalServerError"
  using assms
  by (cases "save \<lparr>Title = title, Body = FormValue r ''body''\<rparr> w") (simp add: saveHandler_def)

lemma foldl_pick: "foldl (\<lambda>a b. if P a b then b else a) e es \<in> set (e # es)"
proof (induction es arbitrary: e)
  case Nil
  show ?case by simp
next
  case (Cons x xs)
  from Cons [of "if P e x then x else e"] show ?case by auto
qed

lemma mux_match_registered:
  assumes "mux_match es path = Some h"
  shows "h \<in> snd ` set es"
proof -
  from assms obtain e es' where f: "filter (\<lambda>e. prefix (fst e) path) es = e # es'"
    and h: "h = snd (foldl (\<lambda>a b. if length (fst a) < length (fst b) then b else a) e es')"
    by (auto simp: mux_match_def split: list.splits)
  have "foldl (\<lambda>a b. if length (fst a) < length (fst b) then b else a) e es' \<in> set (e # es')"
    by (rule foldl_pick)
  also have "set (e # es') \<subseteq> set es" unfolding f [symmetric] by auto
  finally show ?thesis using h by blast
qed

lemma ServeHTTP_registered:
  assumes "ServeHTTP T w r = Some w'"
  shows "w' = makeHandler (viewHandler T) w r \<or> w' = makeHandler saveHandler w r \<or>
         w' = makeHandler (editHandler T) w r"
proof -
  from assms obtain h where m: "mux_match (routes T) (URL_Path r) = Some h" and w': "w' = h w r"
    by (auto simp: ServeHTTP_def split: option.splits if_splits)
  from mux_match_registered [OF m] have "h = makeHandler (viewHandler T) \<or>
      h = makeHandler saveHandler \<or> h = makeHandler (editHandler T)"
    by (auto simp: routes_def)
  with w' show ?thesis by blast
qed

lemma mux_match_routes:
  assumes "op = ''view'' \<or> op = ''edit'' \<or> op = ''save''"
  shows "mux_match (routes T) (''/'' @ op @ ''/'' @ t) =
           Some (makeHandler (operation_handler T op))"
  using assms by (auto simp: mux_match_def routes_def operation_handler_def)

text \<open>A path that \<open>validPath\<close> accepts is in the multiplexer's canonical form.\<close>

lemma is_title_not_dots:
  assumes "is_title t"
  shows "t \<noteq> []" and "t \<noteq> ''.''" and "t \<noteq> ''..''"
  using is_title_chars(2) [OF assms] assms by (auto simp: is_title_def)

lemma cleanPath_valid:
  assumes "op = ''view'' \<or> op = ''edit'' \<or> op = ''save''" and "is_title t"
  shows "cleanPath (''/'' @ op @ ''/'' @ t) = ''/'' @ op @ ''/'' @ t"
proof -
  have t: "CHR ''/'' \<notin> set t" by (rule is_title_chars(1) [OF assms(2)])
  have op: "CHR ''/'' \<notin> set op" "op \<noteq> []" "op \<noteq> ''.''" "op \<noteq> ''..''"
    using assms(1) by auto
  have "components (''/'' @ op @ ''/'' @ t) = [[], op, t]"
    using components_append_slash [OF op(1), of t] components_no_slash [OF t] by simp
  then have "path_Clean (''/'' @ op @ ''/'' @ t) = ''/'' @ op @ ''/'' @ t"
    using op is_title_not_dots [OF assms(2)]
    by (simp add: path_Clean_def clean_elements_def)
  moreover have "last (''/'' @ op @ ''/'' @ t) \<noteq> CHR ''/''"
  proof -
    have ne: "t \<noteq> []" by (rule is_title_not_dots(1) [OF assms(2)])
    then have "last t \<in> set t" by (rule last_in_set)
    with t have "last t \<noteq> CHR ''/''" by metis
    with ne show ?thesis by simp
  qed
  ultimately show ?thesis by (simp add: cleanPath_def)
qed

section \<open>The claims of the specification\<close>

lemma is_title_Test: "is_title ''Test''"
  by (simp add: is_title_def in_ranges_def alnum_def)

lemma is_title_Other: "is_title ''Other''"
  by (simp add: is_title_def in_ranges_def alnum_def)


lemma open_error_Test: "open_error ''Test.txt'' = None"
  by (simp add: open_error_def NAME_MAX_def PATH_MAX_def)

lemma open_error_Other: "open_error ''Other.txt'' = None"
  by (simp add: open_error_def NAME_MAX_def PATH_MAX_def)


lemmas sample_worlds =
  world_with_def world_empty_def world_Test_def world_0644_def world_WriteOnly_def
  world_ReadOnly_def world_Dir_def world_Full_def

lemmas sample_modes =
  owner_may_read_def owner_may_write_def perm_0600_def perm_0644_def perm_0200_def perm_0400_def
  umask_022_def

subsection \<open>The page store\<close>







text \<open>
  Claim C9. The file name \<open>T.txt\<close> determines the title: two titles have the same file name
  only if they are equal. For two distinct valid titles, saving a page under one leaves the
  file of the other, and what \<open>loadPage\<close> returns for it, as they were.
\<close>

theorem C9_filename_injective:
  "(filename T1 = filename T2 \<longleftrightarrow> T1 = T2) \<and>
   (is_title T1 \<and> is_title T2 \<and> T1 \<noteq> T2 \<longrightarrow>
      filename T1 \<noteq> filename T2 \<and>
      files (snd (save \<lparr>Title = T1, Body = B\<rparr> w)) (filename T2) = files w (filename T2) \<and>
      fst (loadPage T2 (snd (save \<lparr>Title = T1, Body = B\<rparr> w))) = fst (loadPage T2 w))"
proof -
  have inj: "filename T1 = filename T2 \<longleftrightarrow> T1 = T2" by (rule filename_inj)
  have "files (snd (save \<lparr>Title = T1, Body = B\<rparr> w)) (filename T2) = files w (filename T2) \<and>
        fst (loadPage T2 (snd (save \<lparr>Title = T1, Body = B\<rparr> w))) = fst (loadPage T2 w)"
    if "T1 \<noteq> T2"
  proof -
    from that inj have ne: "filename T2 \<noteq> filename T1" by auto
    then have f: "files (snd (save \<lparr>Title = T1, Body = B\<rparr> w)) (filename T2) = files w (filename T2)"
      by (simp add: save_other_files)
    then have "fst (loadPage T2 (snd (save \<lparr>Title = T1, Body = B\<rparr> w))) = fst (loadPage T2 w)"
      by (rule loadPage_cong)
    with f show ?thesis by simp
  qed
  with inj show ?thesis by blast
qed

theorem C9_filename_injective_witness:
  "is_title ''Test'' \<and> is_title ''Other'' \<and> ''Test'' \<noteq> ''Other'' \<and>
   filename ''Test'' \<noteq> filename ''Other'' \<and>
   files (snd (save \<lparr>Title = ''Other'', Body = ''bye''\<rparr> world_Test)) (filename ''Test'')
     = Some (File perm_0600 ''hello'') \<and>
   fst (loadPage ''Test'' (snd (save \<lparr>Title = ''Other'', Body = ''bye''\<rparr> world_Test)))
     = Inr \<lparr>Title = ''Test'', Body = ''hello''\<rparr>"
proof -
  have l: "fst (loadPage ''Test'' world_Test) = Inr \<lparr>Title = ''Test'', Body = ''hello''\<rparr>"
    by (simp add: loadPage_def ReadFile_def filename_def open_error_Test world_with_def
          world_Test_def owner_may_read_def perm_0600_bits)
  have f: "files world_Test (filename ''Test'') = Some (File perm_0600 ''hello'')"
    by (simp add: filename_def world_with_def world_Test_def)
  from C9_filename_injective [of "''Other''" "''Test''" "''bye''" world_Test] l f
  show ?thesis by (simp add: is_title_Test is_title_Other) (simp add: filename_def)
qed

text \<open>
  Claim C10. Whenever \<open>loadPage title\<close> succeeds, the page it returns has exactly the
  requested title, and its body is the complete contents of the regular file \<open>title.txt\<close>;
  that file is the only one read, and the store is not changed.
\<close>

theorem C10_loadPage_result:
  assumes "fst (loadPage title w) = Inr p"
  shows "Title p = title \<and>
         (\<exists>mode. files w (title @ ''.txt'') = Some (File mode (Body p))) \<and>
         syscalls (snd (loadPage title w)) = syscalls w @ [ReadFileCall (title @ ''.txt'')] \<and>
         files (snd (loadPage title w)) = files w"
  using assms by (auto simp: loadPage_Inr_iff loadPage_syscalls loadPage_files filename_def)

theorem C10_loadPage_result_witness:
  "fst (loadPage ''Test'' world_Test) = Inr \<lparr>Title = ''Test'', Body = ''hello''\<rparr> \<and>
   files world_Test ''Test.txt'' = Some (File perm_0600 ''hello'') \<and>
   syscalls (snd (loadPage ''Test'' world_Test)) = [ReadFileCall ''Test.txt'']"
proof -
  have h: "fst (loadPage ''Test'' world_Test) = Inr \<lparr>Title = ''Test'', Body = ''hello''\<rparr>"
    by (simp add: loadPage_def ReadFile_def filename_def open_error_Test world_with_def
          world_Test_def owner_may_read_def perm_0600_bits)
  from C10_loadPage_result [OF h] h show ?thesis
    by (simp add: world_with_def world_Test_def)
qed

subsection \<open>Validation and dispatch\<close>

text \<open>
  Claim C2. For a request whose path does not match
  \<^verbatim>\<open>^/(view|edit|save)/([a-zA-Z0-9]+)$\<close>, the wrapper built by \<open>makeHandler\<close>, whatever
  handler it wraps, only appends the 404 reply \<^verbatim>\<open>http.NotFound\<close> to the response: the
  handler is not called, and no call to the file system is made, so the files are as before.
  Routed through the registrations of \<^verbatim>\<open>main\<close>, such a request reaches one of the three
  wrappers, with that result, or none of them.
\<close>

theorem C2_invalid_path_not_found:
  assumes "FindStringSubmatch spec_path_pattern (URL_Path r) = None"
  shows "makeHandler fn w r = w\<lparr>response := response w @ [Error ''404 page not found'' 404]\<rparr> \<and>
         files (makeHandler fn w r) = files w \<and>
         syscalls (makeHandler fn w r) = syscalls w \<and>
         (ServeHTTP T w r = None \<or>
          ServeHTTP T w r = Some (w\<lparr>response := response w @ [Error ''404 page not found'' 404]\<rparr>))"
proof -
  from assms have n: "FindStringSubmatch validPath (URL_Path r) = None"
    by (simp add: validPath_spec_path_pattern)
  then have wrapper: "makeHandler fn w r = w\<lparr>response := response w @ [Error ''404 page not found'' 404]\<rparr>"
    for fn by (rule makeHandler_None)
  have "ServeHTTP T w r = None \<or>
        ServeHTTP T w r = Some (w\<lparr>response := response w @ [Error ''404 page not found'' 404]\<rparr>)"
  proof (cases "ServeHTTP T w r")
    case None
    then show ?thesis by simp
  next
    case (Some w')
    from ServeHTTP_registered [OF Some] wrapper have
      "w' = w\<lparr>response := response w @ [Error ''404 page not found'' 404]\<rparr>" by auto
    with Some show ?thesis by simp
  qed
  with wrapper [of fn] show ?thesis by simp
qed

theorem C2_invalid_path_not_found_witness:
  "FindStringSubmatch spec_path_pattern (URL_Path (request_with_body ''POST'' ''/save/my.page'' ''x'')) = None \<and>
   makeHandler saveHandler world_Test (request_with_body ''POST'' ''/save/my.page'' ''x'') =
     world_Test\<lparr>response := [Error ''404 page not found'' 404]\<rparr> \<and>
   ServeHTTP templates_ok world_Test (request_with_body ''POST'' ''/save/my.page'' ''x'') =
     Some (world_Test\<lparr>response := [Error ''404 page not found'' 404]\<rparr>) \<and>
   files (world_Test\<lparr>response := [Error ''404 page not found'' 404]\<rparr>) ''Test.txt''
     = Some (File perm_0600 ''hello'') \<and>
   syscalls (world_Test\<lparr>response := [Error ''404 page not found'' 404]\<rparr>) = []"
proof -
  let ?r = "request_with_body ''POST'' ''/save/my.page'' ''x''"
  have h: "FindStringSubmatch spec_path_pattern (URL_Path ?r) = None"
    by (simp add: request_with_body_def no_match_my_page)
  have s: "ServeHTTP templates_ok world_Test ?r \<noteq> None"
    by (simp add: ServeHTTP_def mux_match_def routes_def request_with_body_def cleanPath_def
          path_Clean_def clean_elements_def)
  note c = C2_invalid_path_not_found [OF h, of saveHandler world_Test templates_ok]
  from c have 1: "makeHandler saveHandler world_Test ?r =
      world_Test\<lparr>response := response world_Test @ [Error ''404 page not found'' 404]\<rparr>"
    by (rule conjunct1)
  from c s have 2: "ServeHTTP templates_ok world_Test ?r =
      Some (world_Test\<lparr>response := response world_Test @ [Error ''404 page not found'' 404]\<rparr>)"
    by blast
  show ?thesis unfolding 1 2 using h by (simp add: world_with_def world_Test_def)
qed

text \<open>
  Claim C3. Every run of the wrapper either replies 404 or calls the handler with a title
  that matches \<^verbatim>\<open>[a-zA-Z0-9]+\<close>. The title passed on is element 2 of the match; it is not
  empty, all its characters are letters or digits, and so it has no slash, no dot, no NUL and
  no backslash. A path \<open>/view/t\<close>, \<open>/edit/t\<close> or \<open>/save/t\<close> whose segment \<open>t\<close> has a
  slash or a dot (\<^verbatim>\<open>/view/../etc/passwd\<close> is one) does not match: the reply is 404, and no
  call to the file system is made.
\<close>

theorem C3_title_is_alphanumeric:
  "(makeHandler fn w r = http_NotFound w r \<or>
      (\<exists>t. is_title t \<and> makeHandler fn w r = fn w r t)) \<and>
   (\<forall>m. FindStringSubmatch validPath (URL_Path r) = Some m \<longrightarrow>
      makeHandler fn w r = fn w r (m ! 2) \<and>
      m ! 2 \<noteq> [] \<and> list_all (in_ranges alnum) (m ! 2) \<and>
      CHR ''/'' \<notin> set (m ! 2) \<and> CHR ''.'' \<notin> set (m ! 2) \<and>
      CHR 0x00 \<notin> set (m ! 2) \<and> CHR 0x5C \<notin> set (m ! 2)) \<and>
   (\<forall>op t. (op = ''view'' \<or> op = ''edit'' \<or> op = ''save'') \<and>
      URL_Path r = ''/'' @ op @ ''/'' @ t \<and> (CHR ''/'' \<in> set t \<or> CHR ''.'' \<in> set t) \<longrightarrow>
      FindStringSubmatch validPath (URL_Path r) = None \<and>
      makeHandler fn w r = http_NotFound w r \<and>
      syscalls (makeHandler fn w r) = syscalls w \<and> files (makeHandler fn w r) = files w)"
proof (intro conjI allI impI)
  show "makeHandler fn w r = http_NotFound w r \<or> (\<exists>t. is_title t \<and> makeHandler fn w r = fn w r t)"
  proof (cases "FindStringSubmatch validPath (URL_Path r)")
    case None
    then show ?thesis by (simp add: makeHandler_def)
  next
    case (Some m)
    from makeHandler_Some [OF this, of fn w] show ?thesis by blast
  qed
next
  fix m assume m: "FindStringSubmatch validPath (URL_Path r) = Some m"
  from makeHandler_Some [OF m, of fn w] obtain op t where
    t: "is_title t" and mm: "m = [URL_Path r, op, t]" and h: "makeHandler fn w r = fn w r t"
    by blast
  from mm have m2: "m ! 2 = t" by simp
  from t have "t \<noteq> []" "list_all (in_ranges alnum) t" by (simp_all add: is_title_def)
  with h m2 is_title_chars [OF t]
  show "makeHandler fn w r = fn w r (m ! 2)" "m ! 2 \<noteq> []" "list_all (in_ranges alnum) (m ! 2)"
    "CHR ''/'' \<notin> set (m ! 2)" "CHR ''.'' \<notin> set (m ! 2)"
    "CHR 0x00 \<notin> set (m ! 2)" "CHR 0x5C \<notin> set (m ! 2)"
    by simp_all
next
  fix op t
  assume a: "(op = ''view'' \<or> op = ''edit'' \<or> op = ''save'') \<and>
      URL_Path r = ''/'' @ op @ ''/'' @ t \<and> (CHR ''/'' \<in> set t \<or> CHR ''.'' \<in> set t)"
  then have nt: "\<not> is_title t" using is_title_chars(1,2) [of t] by blast
  from a have op: "op = ''edit'' \<or> op = ''save'' \<or> op = ''view''" by blast
  have none: "FindStringSubmatch validPath (''/'' @ op @ ''/'' @ t) = None"
    by (rule iffD2 [OF validPath_title_segment [OF op] nt])
  with a show n: "FindStringSubmatch validPath (URL_Path r) = None" by simp
  then show "makeHandler fn w r = http_NotFound w r" by (simp add: makeHandler_def)
  from n show "syscalls (makeHandler fn w r) = syscalls w" by (simp add: makeHandler_None)
  from n show "files (makeHandler fn w r) = files w" by (simp add: makeHandler_None)
qed

theorem C3_title_is_alphanumeric_witness:
  "FindStringSubmatch validPath (URL_Path (request ''GET'' ''/view/Test''))
     = Some [''/view/Test'', ''view'', ''Test''] \<and>
   makeHandler saveHandler world_Test (request ''GET'' ''/view/Test'')
     = saveHandler world_Test (request ''GET'' ''/view/Test'') ''Test'' \<and>
   CHR ''/'' \<notin> set ''Test'' \<and> CHR ''.'' \<notin> set ''Test'' \<and>
   URL_Path (request ''GET'' ''/view/../etc/passwd'') = ''/'' @ ''view'' @ ''/'' @ ''../etc/passwd'' \<and>
   CHR ''/'' \<in> set ''../etc/passwd'' \<and>
   FindStringSubmatch validPath (URL_Path (request ''GET'' ''/view/../etc/passwd'')) = None \<and>
   makeHandler saveHandler world_Test (request ''GET'' ''/view/../etc/passwd'')
     = http_NotFound world_Test (request ''GET'' ''/view/../etc/passwd'') \<and>
   syscalls (makeHandler saveHandler world_Test (request ''GET'' ''/view/../etc/passwd'')) = []"
proof -
  let ?r1 = "request ''GET'' ''/view/Test''"
  let ?r2 = "request ''GET'' ''/view/../etc/passwd''"
  have m: "FindStringSubmatch validPath (URL_Path ?r1) = Some [''/view/Test'', ''view'', ''Test'']"
    by (simp add: request_def match_view_Test)
  have p: "(''view'' = ''view'' \<or> ''view'' = ''edit'' \<or> ''view'' = ''save'') \<and>
      URL_Path ?r2 = ''/'' @ ''view'' @ ''/'' @ ''../etc/passwd'' \<and>
      (CHR ''/'' \<in> set ''../etc/passwd'' \<or> CHR ''.'' \<in> set ''../etc/passwd'')"
    by (simp add: request_def)
  note a = C3_title_is_alphanumeric [of saveHandler world_Test ?r1, THEN conjunct2, THEN conjunct1,
      rule_format, OF m]
  note b = C3_title_is_alphanumeric [of saveHandler world_Test ?r2, THEN conjunct2, THEN conjunct2,
      rule_format, OF p]
  from a b m p show ?thesis by (simp add: world_with_def world_Test_def http_NotFound_def http_Error_def)
qed

text \<open>
  Claim C4, amended. wiki.go never reads the method of a request, and \<^verbatim>\<open>main\<close>
  registers its three patterns without one: the HTTP surface does not restrict methods.
  For every method, a request whose path is \<open>/view/t\<close>, \<open>/edit/t\<close> or \<open>/save/t\<close>
  with \<open>t\<close> matching \<^verbatim>\<open>[a-zA-Z0-9]+\<close> is dispatched to the view, edit or save handler
  respectively, which is run on that request and title.
\<close>

theorem C4_methods_not_restricted:
  assumes "is_title title" and "op = ''view'' \<or> op = ''edit'' \<or> op = ''save''"
    and "URL_Path r = ''/'' @ op @ ''/'' @ title"
  shows "ServeHTTP T w (r\<lparr>Method := method\<rparr>) =
           Some (operation_handler T op w (r\<lparr>Method := method\<rparr>) title)"
proof -
  let ?r = "r\<lparr>Method := method\<rparr>"
  from assms(2) have op: "op = ''edit'' \<or> op = ''save'' \<or> op = ''view''" by blast
  have "FindStringSubmatch validPath (URL_Path ?r) = Some [URL_Path ?r, op, title]"
    using FindStringSubmatch_validPath [OF op assms(1)] assms(3) by simp
  then have "makeHandler (operation_handler T op) w ?r = operation_handler T op w ?r title"
    by (simp add: makeHandler_def)
  moreover have "mux_match (routes T) (URL_Path ?r) = Some (makeHandler (operation_handler T op))"
    using mux_match_routes [OF assms(2)] assms(3) by simp
  moreover have "cleanPath (URL_Path ?r) = URL_Path ?r"
    using cleanPath_valid [OF assms(2,1)] assms(3) by simp
  ultimately show ?thesis
    by (simp add: ServeHTTP_def)
qed

theorem C4_methods_not_restricted_witness:
  "is_title ''Test'' \<and>
   URL_Path (request ''GET'' ''/edit/Test'') = ''/'' @ ''edit'' @ ''/'' @ ''Test'' \<and>
   ServeHTTP templates_ok world_Test (request ''GET'' ''/edit/Test''\<lparr>Method := ''POST''\<rparr>) =
     Some (editHandler templates_ok world_Test (request ''GET'' ''/edit/Test''\<lparr>Method := ''POST''\<rparr>)
             ''Test'') \<and>
   syscalls (editHandler templates_ok world_Test (request ''GET'' ''/edit/Test''\<lparr>Method := ''POST''\<rparr>)
             ''Test'') = [ReadFileCall ''Test.txt''] \<and>
   response (editHandler templates_ok world_Test (request ''GET'' ''/edit/Test''\<lparr>Method := ''POST''\<rparr>)
             ''Test'') = [ExecuteTemplate ''edit.html'' \<lparr>Title = ''Test'', Body = ''hello''\<rparr>]"
proof -
  let ?r = "request ''GET'' ''/edit/Test''\<lparr>Method := ''POST''\<rparr>"
  have p: "URL_Path (request ''GET'' ''/edit/Test'') = ''/'' @ ''edit'' @ ''/'' @ ''Test''"
    by (simp add: request_def)
  have o: "''edit'' = ''view'' \<or> ''edit'' = ''edit'' \<or> ''edit'' = ''save''" by simp
  have run: "syscalls (editHandler templates_ok world_Test ?r ''Test'') = [ReadFileCall ''Test.txt'']"
    "response (editHandler templates_ok world_Test ?r ''Test'')
       = [ExecuteTemplate ''edit.html'' \<lparr>Title = ''Test'', Body = ''hello''\<rparr>]"
    by (simp_all add: editHandler_def loadPage_def ReadFile_def filename_def open_error_Test
          renderTemplate_def templates_ok_def sample_worlds owner_may_read_def perm_0600_bits)
  from C4_methods_not_restricted [OF is_title_Test o p, of templates_ok world_Test "''POST''"]
    is_title_Test p run
  show ?thesis by (simp add: operation_handler_def)
qed

text \<open>
  Claim C4 as the specification states it, with GET and POST for view, GET for edit and POST
  for save, and no handler run for another method, fails on three requests. A GET of
  \<^verbatim>\<open>/save/Test\<close> runs the save handler, which finds no \<^verbatim>\<open>body\<close> field and
  overwrites the page with the empty body; a POST of \<^verbatim>\<open>/edit/Test\<close> runs the edit
  handler; a DELETE of \<^verbatim>\<open>/view/Test\<close> runs the view handler.
\<close>

theorem C4_counterexample:
  "''GET'' \<notin> set (spec_methods ''save'') \<and>
   ServeHTTP templates_ok world_Test (request ''GET'' ''/save/Test'') =
     Some (saveHandler world_Test (request ''GET'' ''/save/Test'') ''Test'') \<and>
   files world_Test ''Test.txt'' = Some (File perm_0600 ''hello'') \<and>
   files (saveHandler world_Test (request ''GET'' ''/save/Test'') ''Test'') ''Test.txt''
     = Some (File perm_0600 []) \<and>
   syscalls (saveHandler world_Test (request ''GET'' ''/save/Test'') ''Test'')
     = [WriteFileCall ''Test.txt'' [] perm_0600] \<and>
   response (saveHandler world_Test (request ''GET'' ''/save/Test'') ''Test'')
     = [Redirect ''/view/Test'' 302] \<and>
   ''POST'' \<notin> set (spec_methods ''edit'') \<and>
   ServeHTTP templates_ok world_Test (request ''POST'' ''/edit/Test'') =
     Some (editHandler templates_ok world_Test (request ''POST'' ''/edit/Test'') ''Test'') \<and>
   syscalls (editHandler templates_ok world_Test (request ''POST'' ''/edit/Test'') ''Test'')
     = [ReadFileCall ''Test.txt''] \<and>
   response (editHandler templates_ok world_Test (request ''POST'' ''/edit/Test'') ''Test'')
     = [ExecuteTemplate ''edit.html'' \<lparr>Title = ''Test'', Body = ''hello''\<rparr>] \<and>
   ''DELETE'' \<notin> set (spec_methods ''view'') \<and>
   ServeHTTP templates_ok world_Test (request ''DELETE'' ''/view/Test'') =
     Some (viewHandler templates_ok world_Test (request ''DELETE'' ''/view/Test'') ''Test'') \<and>
   syscalls (viewHandler templates_ok world_Test (request ''DELETE'' ''/view/Test'') ''Test'')
     = [ReadFileCall ''Test.txt''] \<and>
   response (viewHandler templates_ok world_Test (request ''DELETE'' ''/view/Test'') ''Test'')
     = [ExecuteTemplate ''view.html'' \<lparr>Title = ''Test'', Body = ''hello''\<rparr>]"
proof -
  have m: "FindStringSubmatch validPath ''/save/Test'' = Some [''/save/Test'', ''save'', ''Test'']"
    "FindStringSubmatch validPath ''/edit/Test'' = Some [''/edit/Test'', ''edit'', ''Test'']"
    "FindStringSubmatch validPath ''/view/Test'' = Some [''/view/Test'', ''view'', ''Test'']"
    using FindStringSubmatch_validPath [OF _ is_title_Test, of "''save''"]
      FindStringSubmatch_validPath [OF _ is_title_Test, of "''edit''"]
      FindStringSubmatch_validPath [OF _ is_title_Test, of "''view''"]
    by simp_all
  have dispatch:
    "ServeHTTP templates_ok world_Test (request ''GET'' ''/save/Test'') =
       Some (saveHandler world_Test (request ''GET'' ''/save/Test'') ''Test'')"
    "ServeHTTP templates_ok world_Test (request ''POST'' ''/edit/Test'') =
       Some (editHandler templates_ok world_Test (request ''POST'' ''/edit/Test'') ''Test'')"
    "ServeHTTP templates_ok world_Test (request ''DELETE'' ''/view/Test'') =
       Some (viewHandler templates_ok world_Test (request ''DELETE'' ''/view/Test'') ''Test'')"
    by (simp_all add: ServeHTTP_def mux_match_def routes_def makeHandler_def m request_def
          cleanPath_def path_Clean_def clean_elements_def)
  have save_run:
    "files (saveHandler world_Test (request ''GET'' ''/save/Test'') ''Test'') ''Test.txt''
       = Some (File perm_0600 [])"
    "syscalls (saveHandler world_Test (request ''GET'' ''/save/Test'') ''Test'')
       = [WriteFileCall ''Test.txt'' [] perm_0600]"
    "response (saveHandler world_Test (request ''GET'' ''/save/Test'') ''Test'')
       = [Redirect ''/view/Test'' 302]"
    by (simp_all add: request_def saveHandler_def FormValue_def Form_def PostForm_def save_def
          WriteFile_def write_data_def filename_def open_error_Test http_Redirect_def
          StatusFound_def sample_worlds owner_may_write_def perm_0600_bits)
  have edit_run:
    "syscalls (editHandler templates_ok world_Test (request ''POST'' ''/edit/Test'') ''Test'')
       = [ReadFileCall ''Test.txt'']"
    "response (editHandler templates_ok world_Test (request ''POST'' ''/edit/Test'') ''Test'')
       = [ExecuteTemplate ''edit.html'' \<lparr>Title = ''Test'', Body = ''hello''\<rparr>]"
    by (simp_all add: editHandler_def loadPage_def ReadFile_def filename_def open_error_Test
          renderTemplate_def templates_ok_def sample_worlds owner_may_read_def perm_0600_bits)
  have view_run:
    "syscalls (viewHandler templates_ok world_Test (request ''DELETE'' ''/view/Test'') ''Test'')
       = [ReadFileCall ''Test.txt'']"
    "response (viewHandler templates_ok world_Test (request ''DELETE'' ''/view/Test'') ''Test'')
       = [ExecuteTemplate ''view.html'' \<lparr>Title = ''Test'', Body = ''hello''\<rparr>]"
    by (simp_all add: viewHandler_def loadPage_def ReadFile_def filename_def open_error_Test
          renderTemplate_def templates_ok_def sample_worlds owner_may_read_def perm_0600_bits)
  have before: "files world_Test ''Test.txt'' = Some (File perm_0600 ''hello'')"
    by (simp add: sample_worlds)
  have methods: "''GET'' \<notin> set (spec_methods ''save'')" "''POST'' \<notin> set (spec_methods ''edit'')"
    "''DELETE'' \<notin> set (spec_methods ''view'')"
    by (simp_all add: spec_methods_def)
  from dispatch save_run edit_run view_run before methods show ?thesis by simp
qed

subsection \<open>The three operations\<close>

text \<open>
  Claim C5. For a valid title, when \<open>loadPage\<close> fails, for whichever reason (the file is
  missing, the name is a directory or too long, the file may not be read), the view handler replies
  with the redirect \<^verbatim>\<open>http.Redirect(w, r, "/edit/" + title, http.StatusFound)\<close> and nothing
  else; when it succeeds, the handler executes the template \<^verbatim>\<open>view.html\<close> on the page
  that was loaded (and reports an error of the template itself as a 500). The handler reads
  the one file \<open>title.txt\<close> and changes no file.
\<close>

theorem C5_view_redirects_or_renders:
  assumes "is_title title"
  shows "(\<forall>err. fst (loadPage title w) = Inl err \<longrightarrow>
            response (viewHandler T w r title) =
              response w @ [Redirect (''/edit/'' @ title) StatusFound]) \<and>
         StatusFound = 302 \<and>
         (files w (title @ ''.txt'') = None \<or> files w (title @ ''.txt'') = Some Dir \<longrightarrow>
            (\<exists>err. fst (loadPage title w) = Inl err)) \<and>
         (\<forall>p. fst (loadPage title w) = Inr p \<longrightarrow>
            response (viewHandler T w r title) =
              response w @ ExecuteTemplate ''view.html'' p #
                (case T ''view.html'' p of None \<Rightarrow> []
                 | Some e \<Rightarrow> [Error e StatusInternalServerError])) \<and>
         files (viewHandler T w r title) = files w \<and>
         syscalls (viewHandler T w r title) = syscalls w @ [ReadFileCall (title @ ''.txt'')]"
proof -
  have "response (viewHandler T w r title) = response w @ [Redirect (''/edit/'' @ title) StatusFound]"
    if "fst (loadPage title w) = Inl err" for err
    using that by (simp add: viewHandler_Inl http_Redirect_def loadPage_response)
  moreover have "StatusFound = 302" by (simp add: StatusFound_def)
  moreover have "\<exists>err. fst (loadPage title w) = Inl err"
    if "files w (title @ ''.txt'') = None \<or> files w (title @ ''.txt'') = Some Dir"
    using loadPage_no_file [of w title] that by (simp add: filename_def)
  moreover have "response (viewHandler T w r title) =
      response w @ ExecuteTemplate ''view.html'' p #
        (case T ''view.html'' p of None \<Rightarrow> [] | Some e \<Rightarrow> [Error e StatusInternalServerError])"
    if "fst (loadPage title w) = Inr p" for p
    using that by (simp add: viewHandler_Inr renderTemplate_response loadPage_response)
  moreover have "files (viewHandler T w r title) = files w"
    and "syscalls (viewHandler T w r title) = syscalls w @ [ReadFileCall (title @ ''.txt'')]"
    using viewHandler_store [of T w r title] by (simp_all add: filename_def)
  ultimately show ?thesis by blast
qed

theorem C5_view_redirects_or_renders_witness:
  "is_title ''Test'' \<and>
   fst (loadPage ''Test'' world_empty) = Inl (PathError ''open'' ''Test.txt'' ENOENT) \<and>
   response (viewHandler templates_ok world_empty (request ''GET'' ''/view/Test'') ''Test'')
     = [Redirect ''/edit/Test'' 302] \<and>
   fst (loadPage ''Test'' world_Dir) = Inl (PathError ''read'' ''Test.txt'' EISDIR) \<and>
   response (viewHandler templates_ok world_Dir (request ''GET'' ''/view/Test'') ''Test'')
     = [Redirect ''/edit/Test'' 302] \<and>
   fst (loadPage ''Test'' world_Test) = Inr \<lparr>Title = ''Test'', Body = ''hello''\<rparr> \<and>
   response (viewHandler templates_ok world_Test (request ''GET'' ''/view/Test'') ''Test'')
     = [ExecuteTemplate ''view.html'' \<lparr>Title = ''Test'', Body = ''hello''\<rparr>]"
proof -
  let ?r = "request ''GET'' ''/view/Test''"
  have l1: "fst (loadPage ''Test'' world_empty) = Inl (PathError ''open'' ''Test.txt'' ENOENT)"
    and l2: "fst (loadPage ''Test'' world_Dir) = Inl (PathError ''read'' ''Test.txt'' EISDIR)"
    and l3: "fst (loadPage ''Test'' world_Test) = Inr \<lparr>Title = ''Test'', Body = ''hello''\<rparr>"
    by (simp_all add: loadPage_def ReadFile_def filename_def open_error_Test sample_worlds
          owner_may_read_def perm_0600_bits)
  note c = C5_view_redirects_or_renders [OF is_title_Test, of _ templates_ok ?r]
  from c [of world_empty] l1
  have 1: "response (viewHandler templates_ok world_empty ?r ''Test'') = [Redirect ''/edit/Test'' 302]"
    by (simp add: sample_worlds)
  from c [of world_Dir] l2
  have 2: "response (viewHandler templates_ok world_Dir ?r ''Test'') = [Redirect ''/edit/Test'' 302]"
    by (simp add: sample_worlds)
  from c [of world_Test] l3
  have 3: "response (viewHandler templates_ok world_Test ?r ''Test'')
             = [ExecuteTemplate ''view.html'' \<lparr>Title = ''Test'', Body = ''hello''\<rparr>]"
    by (simp add: sample_worlds templates_ok_def)
  from 1 2 3 l1 l2 l3 is_title_Test show ?thesis by simp
qed

text \<open>
  Claim C6. For a valid title, when \<open>loadPage\<close> fails, the edit handler executes the
  template \<^verbatim>\<open>edit.html\<close> on the page with the requested title and the empty body. The
  error of the load appears nowhere in the response: the response is the one for that empty
  page, and when the template executes it is the template call alone, with no error reply.
  When \<open>loadPage\<close> succeeds, the template is executed on the loaded page. Only a failure
  of the template itself is reported, as \<^verbatim>\<open>renderTemplate\<close> does for every page.
\<close>

theorem C6_edit_renders:
  assumes "is_title title"
  shows "(\<forall>err. fst (loadPage title w) = Inl err \<longrightarrow>
            response (editHandler T w r title) =
              response w @ ExecuteTemplate ''edit.html'' \<lparr>Title = title, Body = []\<rparr> #
                (case T ''edit.html'' \<lparr>Title = title, Body = []\<rparr> of None \<Rightarrow> []
                 | Some e \<Rightarrow> [Error e StatusInternalServerError]) \<and>
            (T ''edit.html'' \<lparr>Title = title, Body = []\<rparr> = None \<longrightarrow>
               response (editHandler T w r title) =
                 response w @ [ExecuteTemplate ''edit.html'' \<lparr>Title = title, Body = []\<rparr>])) \<and>
         (\<forall>p. fst (loadPage title w) = Inr p \<longrightarrow>
            response (editHandler T w r title) =
              response w @ ExecuteTemplate ''edit.html'' p #
                (case T ''edit.html'' p of None \<Rightarrow> []
                 | Some e \<Rightarrow> [Error e StatusInternalServerError])) \<and>
         files (editHandler T w r title) = files w \<and>
         syscalls (editHandler T w r title) = syscalls w @ [ReadFileCall (title @ ''.txt'')]"
proof -
  let ?new = "\<lparr>Title = title, Body = []\<rparr>"
  have fail: "response (editHandler T w r title) =
      response w @ ExecuteTemplate ''edit.html'' ?new #
        (case T ''edit.html'' ?new of None \<Rightarrow> [] | Some e \<Rightarrow> [Error e StatusInternalServerError])"
    if "fst (loadPage title w) = Inl err" for err
    using that by (simp add: editHandler_Inl renderTemplate_response loadPage_response)
  have quiet: "response (editHandler T w r title) = response w @ [ExecuteTemplate ''edit.html'' ?new]"
    if "fst (loadPage title w) = Inl err" "T ''edit.html'' ?new = None" for err
    using fail [OF that(1)] that(2) by simp
  have ok: "response (editHandler T w r title) =
      response w @ ExecuteTemplate ''edit.html'' p #
        (case T ''edit.html'' p of None \<Rightarrow> [] | Some e \<Rightarrow> [Error e StatusInternalServerError])"
    if "fst (loadPage title w) = Inr p" for p
    using that by (simp add: editHandler_Inr renderTemplate_response loadPage_response)
  have store: "files (editHandler T w r title) = files w"
    "syscalls (editHandler T w r title) = syscalls w @ [ReadFileCall (title @ ''.txt'')]"
    using editHandler_store [of T w r title] by (simp_all add: filename_def)
  from fail quiet ok store show ?thesis by blast
qed

theorem C6_edit_renders_witness:
  "is_title ''Test'' \<and>
   fst (loadPage ''Test'' world_empty) = Inl (PathError ''open'' ''Test.txt'' ENOENT) \<and>
   templates_ok ''edit.html'' \<lparr>Title = ''Test'', Body = []\<rparr> = None \<and>
   response (editHandler templates_ok world_empty (request ''GET'' ''/edit/Test'') ''Test'')
     = [ExecuteTemplate ''edit.html'' \<lparr>Title = ''Test'', Body = []\<rparr>] \<and>
   fst (loadPage ''Test'' world_Test) = Inr \<lparr>Title = ''Test'', Body = ''hello''\<rparr> \<and>
   response (editHandler templates_ok world_Test (request ''GET'' ''/edit/Test'') ''Test'')
     = [ExecuteTemplate ''edit.html'' \<lparr>Title = ''Test'', Body = ''hello''\<rparr>]"
proof -
  let ?r = "request ''GET'' ''/edit/Test''"
  have l1: "fst (loadPage ''Test'' world_empty) = Inl (PathError ''open'' ''Test.txt'' ENOENT)"
    and l3: "fst (loadPage ''Test'' world_Test) = Inr \<lparr>Title = ''Test'', Body = ''hello''\<rparr>"
    by (simp_all add: loadPage_def ReadFile_def filename_def open_error_Test sample_worlds
          owner_may_read_def perm_0600_bits)
  have t: "templates_ok ''edit.html'' \<lparr>Title = ''Test'', Body = []\<rparr> = None"
    by (simp add: templates_ok_def)
  note c = C6_edit_renders [OF is_title_Test, of _ templates_ok ?r]
  from c [of world_empty] l1 t
  have 1: "response (editHandler templates_ok world_empty ?r ''Test'')
             = [ExecuteTemplate ''edit.html'' \<lparr>Title = ''Test'', Body = []\<rparr>]"
    by (simp add: sample_worlds)
  from c [of world_Test] l3
  have 3: "response (editHandler templates_ok world_Test ?r ''Test'')
             = [ExecuteTemplate ''edit.html'' \<lparr>Title = ''Test'', Body = ''hello''\<rparr>]"
    by (simp add: sample_worlds templates_ok_def)
  from 1 3 l1 l3 t is_title_Test show ?thesis by simp
qed

text \<open>
  Claim C7. For a valid title, the save handler takes the form field \<^verbatim>\<open>body\<close> (the empty
  string when the form has none), and calls \<open>save\<close> on the page made of the title and that
  body: one \<^verbatim>\<open>WriteFile\<close> of the body to \<open>title.txt\<close>. If the save succeeds, the reply is
  the redirect to \<open>/view/title\<close> with status 302. If it fails, the reply is
  \<^verbatim>\<open>http.Error\<close> with the text of the error and status 500, and no redirect is issued.
  In both cases the files are as \<open>save\<close> has left them.
\<close>

theorem C7_save_redirects_or_fails:
  assumes "is_title title"
  shows "(Form r ''body'' = None \<longrightarrow> FormValue r ''body'' = []) \<and>
         (\<forall>v vs. Form r ''body'' = Some (v # vs) \<longrightarrow> FormValue r ''body'' = v) \<and>
         syscalls (saveHandler w r title) =
           syscalls w @ [WriteFileCall (title @ ''.txt'') (FormValue r ''body'') perm_0600] \<and>
         (fst (save \<lparr>Title = title, Body = FormValue r ''body''\<rparr> w) = None \<longrightarrow>
            response (saveHandler w r title) =
              response w @ [Redirect (''/view/'' @ title) StatusFound] \<and>
            files (saveHandler w r title) =
              files (snd (save \<lparr>Title = title, Body = FormValue r ''body''\<rparr> w))) \<and>
         (\<forall>err. fst (save \<lparr>Title = title, Body = FormValue r ''body''\<rparr> w) = Some err \<longrightarrow>
            response (saveHandler w r title) =
              response w @ [Error (PathError_Error err) StatusInternalServerError] \<and>
            files (saveHandler w r title) =
              files (snd (save \<lparr>Title = title, Body = FormValue r ''body''\<rparr> w))) \<and>
         StatusFound = 302 \<and> StatusInternalServerError = 500"
proof -
  let ?p = "\<lparr>Title = title, Body = FormValue r ''body''\<rparr>"
  have absent: "FormValue r ''body'' = []" if "Form r ''body'' = None"
    using that by (simp add: FormValue_def)
  have present: "FormValue r ''body'' = v" if "Form r ''body'' = Some (v # vs)" for v vs
    using that by (simp add: FormValue_def)
  have calls: "syscalls (saveHandler w r title) =
      syscalls w @ [WriteFileCall (title @ ''.txt'') (FormValue r ''body'') perm_0600]"
  proof (cases "fst (save ?p w)")
    case None
    then show ?thesis
      by (simp add: saveHandler_None http_Redirect_def save_syscalls filename_def)
  next
    case (Some err)
    then show ?thesis
      by (simp add: saveHandler_Some http_Error_def save_syscalls filename_def)
  qed
  have ok: "response (saveHandler w r title) = response w @ [Redirect (''/view/'' @ title) StatusFound] \<and>
      files (saveHandler w r title) = files (snd (save ?p w))"
    if "fst (save ?p w) = None"
    using that by (simp add: saveHandler_None http_Redirect_def save_response)
  have bad: "response (saveHandler w r title) =
        response w @ [Error (PathError_Error err) StatusInternalServerError] \<and>
      files (saveHandler w r title) = files (snd (save ?p w))"
    if "fst (save ?p w) = Some err" for err
    using that by (simp add: saveHandler_Some http_Error_def save_response)
  have "StatusFound = 302" "StatusInternalServerError = 500"
    by (simp_all add: StatusFound_def StatusInternalServerError_def)
  with absent present calls ok bad show ?thesis by blast
qed

theorem C7_save_redirects_or_fails_witness:
  "is_title ''Test'' \<and>
   Form (request_with_body ''POST'' ''/save/Test'' ''hello'') ''body'' = Some [''hello''] \<and>
   fst (save \<lparr>Title = ''Test'', Body = ''hello''\<rparr> world_empty) = None \<and>
   response (saveHandler world_empty (request_with_body ''POST'' ''/save/Test'' ''hello'') ''Test'')
     = [Redirect ''/view/Test'' 302] \<and>
   syscalls (saveHandler world_empty (request_with_body ''POST'' ''/save/Test'' ''hello'') ''Test'')
     = [WriteFileCall ''Test.txt'' ''hello'' perm_0600] \<and>
   files (saveHandler world_empty (request_with_body ''POST'' ''/save/Test'' ''hello'') ''Test'')
     ''Test.txt'' = Some (File perm_0600 ''hello'') \<and>
   Form (request ''POST'' ''/save/Test'') ''body'' = None \<and>
   fst (save \<lparr>Title = ''Test'', Body = []\<rparr> world_Dir) = Some (PathError ''open'' ''Test.txt'' EISDIR) \<and>
   response (saveHandler world_Dir (request ''POST'' ''/save/Test'') ''Test'')
     = [Error ''open Test.txt: is a directory'' 500] \<and>
   syscalls (saveHandler world_Dir (request ''POST'' ''/save/Test'') ''Test'')
     = [WriteFileCall ''Test.txt'' [] perm_0600]"
proof -
  let ?r1 = "request_with_body ''POST'' ''/save/Test'' ''hello''"
  let ?r2 = "request ''POST'' ''/save/Test''"
  have f1: "Form ?r1 ''body'' = Some [''hello'']" and f2: "Form ?r2 ''body'' = None"
    by (simp_all add: Form_def PostForm_def request_with_body_def request_def)
  have s1: "fst (save \<lparr>Title = ''Test'', Body = ''hello''\<rparr> world_empty) = None"
    and s1f: "files (snd (save \<lparr>Title = ''Test'', Body = ''hello''\<rparr> world_empty)) ''Test.txt''
      = Some (File perm_0600 ''hello'')"
    and s2: "fst (save \<lparr>Title = ''Test'', Body = []\<rparr> world_Dir)
      = Some (PathError ''open'' ''Test.txt'' EISDIR)"
    by (simp_all add: save_def WriteFile_def write_data_def filename_def open_error_Test
          sample_worlds sample_modes)
  note c1 = C7_save_redirects_or_fails [OF is_title_Test, of ?r1 world_empty]
  note c2 = C7_save_redirects_or_fails [OF is_title_Test, of ?r2 world_Dir]
  from c1 f1 have v1: "FormValue ?r1 ''body'' = ''hello''" by blast
  from c2 f2 have v2: "FormValue ?r2 ''body'' = []" by blast
  from c1 s1 s1f
  have 1: "response (saveHandler world_empty ?r1 ''Test'') = [Redirect ''/view/Test'' 302]"
    "syscalls (saveHandler world_empty ?r1 ''Test'') = [WriteFileCall ''Test.txt'' ''hello'' perm_0600]"
    "files (saveHandler world_empty ?r1 ''Test'') ''Test.txt'' = Some (File perm_0600 ''hello'')"
    unfolding v1 by (simp_all add: sample_worlds)
  from c2 s2
  have 2: "response (saveHandler world_Dir ?r2 ''Test'') = [Error ''open Test.txt: is a directory'' 500]"
    "syscalls (saveHandler world_Dir ?r2 ''Test'') = [WriteFileCall ''Test.txt'' [] perm_0600]"
    unfolding v2 by (simp_all add: sample_worlds)
  from 1 2 f1 f2 s1 s2 is_title_Test show ?thesis by simp
qed

end
